theory Spec2Isabelle
  imports Complex_Main "HOL-Library.Sublist"
begin

section \<open>The scrape orchestration engine of \<^verbatim>\<open>extension/background.js\<close>\<close>

text \<open>
  The background script keeps one module-level \<^verbatim>\<open>state\<close> object and reacts to messages
  and to the callbacks of the Chrome API. The embedding passes the state explicitly and
  returns, next to the new state, the list of outward actions the handler performed, in
  program order. \<^verbatim>\<open>console.log\<close> calls are left out: they neither read nor change
  anything a handler depends on.
\<close>

subsection \<open>Data\<close>

text \<open>An article as the extractors build it; the orchestrator reads only \<^verbatim>\<open>title\<close>.\<close>

record article =
  title :: string
  url :: "string option"
  isOA :: bool
  articleJournal :: "string option"
  articlePublicationDate :: "string option"

text \<open>
  \<^verbatim>\<open>pagination\<close> of a Nature search payload. \<^verbatim>\<open>totalResults\<close> comes from
  \<^verbatim>\<open>parseInt\<close> of a digit string: a non-negative integer, or \<^verbatim>\<open>NaN\<close> (here
  \<open>None\<close>). The field \<^verbatim>\<open>maxPages\<close> the extractor also sends is never read by the
  background script and is left out.
\<close>

record pagination =
  totalResults :: "nat option"
  pageSize :: int

text \<open>
  The \<^verbatim>\<open>data\<close> object of a \<^verbatim>\<open>pageScraped\<close> message. Absent boolean flags are
  \<^verbatim>\<open>undefined\<close>, which is falsy: \<open>False\<close>. \<^verbatim>\<open>nextIssueUrl\<close> is a string or
  \<^verbatim>\<open>null\<close>; \<^verbatim>\<open>pagination\<close> may be absent.
\<close>

record scraped_data =
  articles :: "article list"
  journal :: string
  publicationDate :: string
  htmlContent :: string
  currentUrl :: string
  nextIssueUrl :: "string option"
  isNatureSearch :: bool
  isHeartbeat :: bool
  pagination :: "pagination option"

type_synonym tab_id = int

text \<open>The module-level \<^verbatim>\<open>state\<close> object (lines 4 to 13).\<close>

record state =
  isScraping :: bool
  scraperTabId :: "tab_id option"
  currentJournal :: "string option"
  allArticles :: "article list"
  natureArticles :: "article list"
  naturePageCount :: nat
  issueCount :: nat
  lastScrapedTitle :: string

text \<open>
  The local-time fields of a JavaScript \<^verbatim>\<open>Date\<close> that the script reads:
  \<^verbatim>\<open>getFullYear()\<close>, \<^verbatim>\<open>getMonth()\<close> (0 to 11) and \<^verbatim>\<open>getDate()\<close>.
\<close>

record jsdate =
  getFullYear :: int
  getMonth :: nat
  getDate :: nat

text \<open>
  What a handler reads from the JavaScript engine: the \<^verbatim>\<open>Date\<close> constructor applied to
  a string (\<open>None\<close> is an Invalid Date, whose \<^verbatim>\<open>getTime()\<close> is \<^verbatim>\<open>NaN\<close>; parsing of
  non-ISO strings is implementation-defined, so the parser is a parameter), the current
  date \<^verbatim>\<open>new Date()\<close> and its \<^verbatim>\<open>toISOString()\<close>.
\<close>

record env =
  dateParse :: "string \<rightharpoonup> jsdate"
  now :: jsdate
  nowISO :: string

text \<open>The object of a \<^verbatim>\<open>statusUpdate\<close> broadcast and of the \<^verbatim>\<open>checkStatus\<close> response.\<close>

record status =
  statusIsScraping :: bool
  statusJournal :: "string option"
  statusIssueCount :: nat
  statusArticleCount :: nat
  statusLastScrapedTitle :: string

text \<open>What is handed to \<^verbatim>\<open>saveFile\<close>: raw HTML, or the object given to \<^verbatim>\<open>JSON.stringify\<close>.\<close>

datatype file_content =
    Html string
  | IssueManifest string string string "article list"
  | SearchPage string "article list"

text \<open>The two closures handed to \<^verbatim>\<open>setTimeout\<close> (lines 141 and 203), each with its URL.\<close>

datatype timer_task = NavigateIssue string | NavigateSearch string

text \<open>The only callback ever handed to \<^verbatim>\<open>chrome.tabs.update\<close> (line 143).\<close>

datatype nav_callback = IssueNavCallback

datatype response = Started | Stopped | Received | StatusResponse status

datatype effect =
    SaveFile file_content string string
  | StatusUpdate status
  | SetTimeout timer_task nat
  | TabsCreate string
  | TabsRemove tab_id
  | TabsUpdate tab_id string "nav_callback option"
  | SendResponse response

datatype message =
    StartScraping string "string option"
  | StopScraping
  | CheckStatus
  | PageScraped scraped_data

text \<open>
  Everything that makes the script run: a message, the callback of
  \<^verbatim>\<open>chrome.tabs.create\<close>, the callback of \<^verbatim>\<open>chrome.tabs.remove\<close>, a timer firing, and
  the completion of a \<^verbatim>\<open>chrome.tabs.update\<close> (with the callback that was registered for
  it, if any, and whether \<^verbatim>\<open>chrome.runtime.lastError\<close> is set).
\<close>

datatype event =
    Message message
  | TabCreated tab_id
  | TabRemoved
  | TimerFired timer_task
  | NavigationDone "nav_callback option" bool

subsection \<open>String helpers of the JavaScript library\<close>

definition digitChar :: "nat \<Rightarrow> char" where
  "digitChar n = (''0123456789'' ! (n mod 10))"

text \<open>\<^verbatim>\<open>String(n)\<close> for a non-negative integer.\<close>

fun natToString :: "nat \<Rightarrow> string" where
  "natToString n = (if n < 10 then [digitChar n] else natToString (n div 10) @ [digitChar n])"

declare natToString.simps [simp del]

text \<open>\<^verbatim>\<open>String(n)\<close> for an integer.\<close>

definition intToString :: "int \<Rightarrow> string" where
  "intToString i = (if i < 0 then CHR ''-'' # natToString (nat (- i)) else natToString (nat i))"

text \<open>\<^verbatim>\<open>s.padStart(n, c)\<close> for a one-character pad.\<close>

definition padStart :: "nat \<Rightarrow> char \<Rightarrow> string \<Rightarrow> string" where
  "padStart n c s = replicate (n - length s) c @ s"

text \<open>
  \<^verbatim>\<open>s.split(sep)\<close> for a non-empty separator: the pieces between the non-overlapping
  occurrences of \<open>sep\<close>, found from the left. \<open>acc\<close> holds the current piece, reversed.
\<close>

function splitAux :: "string \<Rightarrow> string \<Rightarrow> string \<Rightarrow> string list" where
  "splitAux sep acc [] = [rev acc]"
| "splitAux sep acc (c # cs) =
     (if sep \<noteq> [] \<and> prefix sep (c # cs)
      then rev acc # splitAux sep [] (drop (length sep - 1) cs)
      else splitAux sep (c # acc) cs)"
  by pat_completeness auto
termination
  by (relation "measure (\<lambda>(sep, acc, s). length s)") auto

definition split_js :: "string \<Rightarrow> string \<Rightarrow> string list" where
  "split_js s sep = splitAux sep [] s"

definition isDigit :: "char \<Rightarrow> bool" where
  "isDigit c = (c \<in> set ''0123456789'')"

text \<open>The class \<^verbatim>\<open>\w\<close> of a regular expression without the unicode flag.\<close>

definition isWordChar :: "char \<Rightarrow> bool" where
  "isWordChar c =
     (c \<in> set ''abcdefghijklmnopqrstuvwxyzABCDEFGHIJKLMNOPQRSTUVWXYZ0123456789_'')"

text \<open>
  \<^verbatim>\<open>20\d{2}\b\<close> anchored at the head of the string: the four characters matched, if any.
  The closing \<^verbatim>\<open>\b\<close> holds at the end of the string or before a non-word character.
\<close>

fun yearAt :: "string \<Rightarrow> string option" where
  "yearAt (a # b # c # d # rest) =
     (if a = CHR ''2'' \<and> b = CHR ''0'' \<and> isDigit c \<and> isDigit d
         \<and> (case rest of [] \<Rightarrow> True | e # _ \<Rightarrow> \<not> isWordChar e)
      then Some [a, b, c, d] else None)"
| "yearAt _ = None"

text \<open>
  \<^verbatim>\<open>pubDate.match(/\b(20\d{2})\b/)\<close>: capture group 1 of the leftmost match.
  \<open>prevWord\<close> tells whether the character before the current position is a word
  character; the opening \<^verbatim>\<open>\b\<close> holds, before a digit, exactly when it is not.
\<close>

fun matchYear :: "bool \<Rightarrow> string \<Rightarrow> string option" where
  "matchYear prevWord [] = None"
| "matchYear prevWord (c # cs) =
     (case (if prevWord then None else yearAt (c # cs)) of
        Some y \<Rightarrow> Some y
      | None \<Rightarrow> matchYear (isWordChar c) cs)"

text \<open>
  What \<^verbatim>\<open>/\b(20\d{2})\b/\<close> matches, read off the regular expression and not off
  \<^const>\<open>matchYear\<close>: the string is \<open>p @ y @ r\<close>, where \<open>y\<close> is \<^verbatim>\<open>20\<close> and two
  digits, with a word boundary on each side. \<open>y\<close> begins and ends with a word
  character, so the boundary before it is the start of the string or a non-word
  character, and the boundary after it is the end of the string or a non-word character.
\<close>

definition yearToken :: "string \<Rightarrow> string \<Rightarrow> string \<Rightarrow> bool" where
  "yearToken p y r =
     (length y = 4 \<and> take 2 y = ''20'' \<and> isDigit (y ! 2) \<and> isDigit (y ! 3)
      \<and> (p = [] \<or> \<not> isWordChar (last p)) \<and> (r = [] \<or> \<not> isWordChar (hd r)))"

text \<open>
  The same with the character before the string taken into account: \<open>prevWord\<close> tells
  whether it is a word character, which decides the boundary at the very start. This is
  the form that goes through an induction along the string.
\<close>

definition yearTokenAfter :: "bool \<Rightarrow> string \<Rightarrow> string \<Rightarrow> string \<Rightarrow> bool" where
  "yearTokenAfter prevWord p y r =
     (length y = 4 \<and> take 2 y = ''20'' \<and> isDigit (y ! 2) \<and> isDigit (y ! 3)
      \<and> (if p = [] then \<not> prevWord else \<not> isWordChar (last p))
      \<and> (r = [] \<or> \<not> isWordChar (hd r)))"

subsection \<open>Utilities (lines 215 to 257)\<close>

definition parsePublicationDate :: "(string \<rightharpoonup> jsdate) \<Rightarrow> string \<Rightarrow> string" where
  "parsePublicationDate parse pubDate =
     (case parse pubDate of
        Some date \<Rightarrow>
          (let yyyy = getFullYear date;
               mm = padStart 2 CHR ''0'' (natToString (getMonth date + 1));
               dd = padStart 2 CHR ''0'' (natToString (getDate date))
           in intToString yyyy @ mm @ dd)
      | None \<Rightarrow>
          (let year = (case matchYear False pubDate of Some y \<Rightarrow> y | None \<Rightarrow> ''unknown_year'')
           in year @ ''_unknown''))"

definition saveFile :: "file_content \<Rightarrow> string \<Rightarrow> string \<Rightarrow> effect list" where
  "saveFile content filename type = [SaveFile content filename type]"

definition saveHtmlForDebug :: "env \<Rightarrow> scraped_data \<Rightarrow> effect list" where
  "saveHtmlForDebug e data =
     (let yyyymmdd = parsePublicationDate (dateParse e) (publicationDate data);
          yyyy = take 4 yyyymmdd;
          mmdd = drop 4 yyyymmdd;
          htmlFilename = ''chrome/'' @ journal data @ ''/'' @ yyyy @ ''/'' @ mmdd @ ''.html''
      in saveFile (Html (htmlContent data)) htmlFilename ''text/html'')"

subsection \<open>State management and communication (lines 15 to 36, 259 to 271)\<close>

definition resetState :: "state \<Rightarrow> string option \<Rightarrow> state" where
  "resetState s j =
     s\<lparr>isScraping := True, currentJournal := j, allArticles := [], natureArticles := [],
       naturePageCount := 0, issueCount := 0, lastScrapedTitle := ''''\<rparr>"

text \<open>
  The object built at lines 28 to 35 and again at 77 to 83; \<^verbatim>\<open>a || b\<close> on numbers
  is \<open>b\<close> when \<open>a\<close> is 0.
\<close>

definition statusOf :: "state \<Rightarrow> status" where
  "statusOf s =
     \<lparr>statusIsScraping = isScraping s,
      statusJournal = currentJournal s,
      statusIssueCount = (if naturePageCount s \<noteq> 0 then naturePageCount s else issueCount s),
      statusArticleCount =
        (if length (natureArticles s) \<noteq> 0 then length (natureArticles s)
         else length (allArticles s)),
      statusLastScrapedTitle = lastScrapedTitle s\<rparr>"

definition broadcastStatus :: "state \<Rightarrow> effect list" where
  "broadcastStatus s = [StatusUpdate (statusOf s)]"

text \<open>Truthiness of \<^verbatim>\<open>state.scraperTabId\<close>: \<^verbatim>\<open>null\<close> and 0 are falsy.\<close>

fun truthyTab :: "tab_id option \<Rightarrow> bool" where
  "truthyTab None = False"
| "truthyTab (Some t) = (t \<noteq> 0)"

definition stopScraping :: "state \<Rightarrow> bool \<Rightarrow> state \<times> effect list" where
  "stopScraping s shouldCloseTab =
     (let s1 = s\<lparr>isScraping := False\<rparr> in
      case scraperTabId s1 of
        None \<Rightarrow> (s1, broadcastStatus s1)
      | Some t \<Rightarrow>
          if t \<noteq> 0 \<and> shouldCloseTab then (s1, TabsRemove t # broadcastStatus s1)
          else if t \<noteq> 0 then
            (let s2 = s1\<lparr>scraperTabId := None\<rparr> in (s2, broadcastStatus s2))
          else (s1, broadcastStatus s1))"

subsection \<open>Data processing (lines 93 to 212)\<close>

text \<open>
  Lines 192 to 194: \<^verbatim>\<open>data.pagination || {}\<close>, \<^verbatim>\<open>pagination.totalResults || 0\<close> and
  \<^verbatim>\<open>Math.min(Math.ceil(totalResults / 50), 20)\<close>.
\<close>

definition stopAtPage :: "scraped_data \<Rightarrow> int" where
  "stopAtPage data =
     (let total = (case pagination data of
                     None \<Rightarrow> 0
                   | Some p \<Rightarrow> (case totalResults p of None \<Rightarrow> 0 | Some n \<Rightarrow> n))
      in min \<lceil>real total / 50\<rceil> 20)"

text \<open>
  Line 199: \<^verbatim>\<open>data.currentUrl.split('&page=')[0]\<close>. An array read out of range is
  \<^verbatim>\<open>undefined\<close>, which the template literal of line 200 prints as such.
\<close>

definition baseUrl :: "string \<Rightarrow> string" where
  "baseUrl cur = (case split_js cur ''&page='' of b # _ \<Rightarrow> b | [] \<Rightarrow> ''undefined'')"

text \<open>Line 200, for \<^verbatim>\<open>state.naturePageCount\<close> equal to \<open>count\<close>.\<close>

definition nextUrl :: "string \<Rightarrow> nat \<Rightarrow> string" where
  "nextUrl cur count = baseUrl cur @ ''&page='' @ natToString (count + 1)"

definition handleNatureSearchData :: "env \<Rightarrow> state \<Rightarrow> scraped_data \<Rightarrow> state \<times> effect list" where
  "handleNatureSearchData e s data =
     (let s1 = s\<lparr>naturePageCount := naturePageCount s + 1\<rparr>;
          s2 = s1\<lparr>natureArticles := natureArticles s1 @ articles data\<rparr>;
          s3 = (if length (articles data) > 0
                then s2\<lparr>lastScrapedTitle := title (last (articles data))\<rparr> else s2);
          fx1 = broadcastStatus s3;
          yyyy = getFullYear (now e);
          mm = padStart 2 CHR ''0'' (natToString (getMonth (now e) + 1));
          dd = padStart 2 CHR ''0'' (natToString (getDate (now e)));
          yyyymmdd = intToString yyyy @ mm @ dd;
          pageNum = padStart 2 CHR ''0'' (natToString (naturePageCount s3));
          baseFilename = ''chrome/search/'' @ yyyymmdd @ ''/page'' @ pageNum;
          fx2 = saveFile (Html (htmlContent data)) (baseFilename @ ''.html'') ''text/html'';
          fx3 = saveFile (SearchPage (nowISO e) (articles data)) (baseFilename @ ''.json'')
                  ''application/json''
      in if int (naturePageCount s3) < stopAtPage data
         then (s3, fx1 @ fx2 @ fx3
                   @ [SetTimeout (NavigateSearch (nextUrl (currentUrl data) (naturePageCount s3)))
                        2000])
         else (case stopScraping s3 False of (s4, fx4) \<Rightarrow> (s4, fx1 @ fx2 @ fx3 @ fx4)))"

text \<open>Truthiness of \<^verbatim>\<open>data.nextIssueUrl\<close>: \<^verbatim>\<open>null\<close> and the empty string are falsy.\<close>

fun truthyUrl :: "string option \<Rightarrow> bool" where
  "truthyUrl None = False"
| "truthyUrl (Some u) = (u \<noteq> [])"

definition handleScrapedData :: "env \<Rightarrow> state \<Rightarrow> scraped_data \<Rightarrow> state \<times> effect list" where
  "handleScrapedData e s data =
     (if \<not> isScraping s then (s, [])
      else if isNatureSearch data then handleNatureSearchData e s data
      else if isHeartbeat data then (s, saveHtmlForDebug e data)
      else
        (let s1 = s\<lparr>issueCount := issueCount s + 1\<rparr>;
             s2 = s1\<lparr>allArticles := allArticles s1 @ articles data\<rparr>;
             s3 = (if length (articles data) > 0
                   then s2\<lparr>lastScrapedTitle := title (last (articles data))\<rparr> else s2);
             fx1 = broadcastStatus s3;
             manifest = IssueManifest (journal data) (publicationDate data) (nowISO e)
                          (articles data);
             yyyymmdd = parsePublicationDate (dateParse e) (publicationDate data);
             yyyy = take 4 yyyymmdd;
             mmdd = drop 4 yyyymmdd;
             manifestFilename =
               ''chrome/'' @ journal data @ ''/'' @ yyyy @ ''/'' @ mmdd @ ''.json'';
             fx2 = saveFile manifest manifestFilename ''application/json'';
             fx3 = saveHtmlForDebug e data
         in case nextIssueUrl data of
              Some u \<Rightarrow>
                if u \<noteq> [] then (s3, fx1 @ fx2 @ fx3 @ [SetTimeout (NavigateIssue u) 2000])
                else (case stopScraping s3 False of (s4, fx4) \<Rightarrow> (s4, fx1 @ fx2 @ fx3 @ fx4))
            | None \<Rightarrow>
                (case stopScraping s3 False of (s4, fx4) \<Rightarrow> (s4, fx1 @ fx2 @ fx3 @ fx4))))"

text \<open>
  The closures of lines 141 to 152 and 203 to 207, run when the timer fires. In issue
  mode \<^verbatim>\<open>chrome.tabs.update\<close> gets a callback; in search mode it gets none.
\<close>

fun timerFired :: "state \<Rightarrow> timer_task \<Rightarrow> state \<times> effect list" where
  "timerFired s (NavigateIssue u) =
     (case scraperTabId s of
        Some t \<Rightarrow>
          if isScraping s \<and> t \<noteq> 0 then (s, [TabsUpdate t u (Some IssueNavCallback)])
          else (s, [])
      | None \<Rightarrow> (s, []))"
| "timerFired s (NavigateSearch u) =
     (case scraperTabId s of
        Some t \<Rightarrow> if isScraping s \<and> t \<noteq> 0 then (s, [TabsUpdate t u None]) else (s, [])
      | None \<Rightarrow> (s, []))"

text \<open>
  Completion of a \<^verbatim>\<open>chrome.tabs.update\<close>: Chrome calls the callback registered for it,
  with \<^verbatim>\<open>chrome.runtime.lastError\<close> set when the navigation failed (lines 143 to 150).
  Where no callback was registered, no code of the script runs.
\<close>

fun navigationDone :: "state \<Rightarrow> nav_callback option \<Rightarrow> bool \<Rightarrow> state \<times> effect list" where
  "navigationDone s (Some IssueNavCallback) lastError =
     (if lastError then stopScraping s False else (s, []))"
| "navigationDone s None lastError = (s, [])"

subsection \<open>Action handlers and the message listener (lines 38 to 90)\<close>

definition handleStartScraping :: "state \<Rightarrow> string \<Rightarrow> string option \<Rightarrow> state \<times> effect list" where
  "handleStartScraping s u j = (resetState s j, [TabsCreate u, SendResponse Started])"

definition handleStopScraping :: "state \<Rightarrow> state \<times> effect list" where
  "handleStopScraping s =
     (case stopScraping s True of (s1, fx) \<Rightarrow> (s1, fx @ [SendResponse Stopped]))"

definition handleCheckStatus :: "state \<Rightarrow> state \<times> effect list" where
  "handleCheckStatus s = (s, [SendResponse (StatusResponse (statusOf s))])"

definition handlePageScraped :: "env \<Rightarrow> state \<Rightarrow> scraped_data \<Rightarrow> state \<times> effect list" where
  "handlePageScraped e s data =
     (case handleScrapedData e s data of (s1, fx) \<Rightarrow> (s1, fx @ [SendResponse Received]))"

fun onMessage :: "env \<Rightarrow> state \<Rightarrow> message \<Rightarrow> state \<times> effect list" where
  "onMessage e s (StartScraping u j) = handleStartScraping s u j"
| "onMessage e s StopScraping = handleStopScraping s"
| "onMessage e s CheckStatus = handleCheckStatus s"
| "onMessage e s (PageScraped data) = handlePageScraped e s data"

text \<open>One turn of the event loop: the script is single-threaded, one event at a time.\<close>

fun step :: "env \<Rightarrow> state \<Rightarrow> event \<Rightarrow> state \<times> effect list" where
  "step e s (Message m) = onMessage e s m"
| "step e s (TabCreated t) = (s\<lparr>scraperTabId := Some t\<rparr>, [])"
| "step e s TabRemoved = (s\<lparr>scraperTabId := None\<rparr>, [])"
| "step e s (TimerFired task) = timerFired s task"
| "step e s (NavigationDone cb lastError) = navigationDone s cb lastError"

text \<open>A run: events in the order the event loop takes them, each with the engine it sees.\<close>

fun run :: "state \<Rightarrow> (env \<times> event) list \<Rightarrow> state \<times> effect list" where
  "run s [] = (s, [])"
| "run s ((e, ev) # rest) =
     (case step e s ev of (s1, fx1) \<Rightarrow>
        (case run s1 rest of (s2, fx2) \<Rightarrow> (s2, fx1 @ fx2)))"

fun isSaveFile :: "effect \<Rightarrow> bool" where
  "isSaveFile (SaveFile c f t) = True"
| "isSaveFile _ = False"

fun isSetTimeout :: "effect \<Rightarrow> bool" where
  "isSetTimeout (SetTimeout task d) = True"
| "isSetTimeout _ = False"

fun isTabsUpdate :: "effect \<Rightarrow> bool" where
  "isTabsUpdate (TabsUpdate t u cb) = True"
| "isTabsUpdate _ = False"

fun isTabsRemove :: "effect \<Rightarrow> bool" where
  "isTabsRemove (TabsRemove t) = True"
| "isTabsRemove _ = False"

fun isStart :: "event \<Rightarrow> bool" where
  "isStart (Message (StartScraping u j)) = True"
| "isStart _ = False"

text \<open>The value \<^verbatim>\<open>state\<close> is initialised with when the script is loaded (lines 4 to 13).\<close>

definition initialState :: state where
  "initialState =
     \<lparr>isScraping = False, scraperTabId = None, currentJournal = None, allArticles = [],
      natureArticles = [], naturePageCount = 0, issueCount = 0, lastScrapedTitle = ''''\<rparr>"

subsection \<open>The specification's wording of two computations\<close>

text \<open>
  The specification gives the page at which a search session stops as
  \<^verbatim>\<open>min(ceil(totalResults / pageSize), 20)\<close>. This definition follows those words; it is
  compared with \<^const>\<open>stopAtPage\<close>, which follows the code.
\<close>

definition spec_stopAtPage :: "nat \<Rightarrow> int \<Rightarrow> int" where
  "spec_stopAtPage n psize = min \<lceil>real n / real_of_int psize\<rceil> 20"

fun joinWith :: "string \<Rightarrow> string list \<Rightarrow> string" where
  "joinWith sep [] = []"
| "joinWith sep [x] = x"
| "joinWith sep (x # y # ys) = x @ sep @ joinWith sep (y # ys)"

text \<open>
  The specification derives the next search URL by stripping any existing \<^verbatim>\<open>page=\<close>
  query parameter and appending \<^verbatim>\<open>page={count+1}\<close>. Following those words: the query
  string after the first \<^verbatim>\<open>?\<close> is cut at every \<^verbatim>\<open>&\<close>, the parameters named
  \<^verbatim>\<open>page\<close> are dropped, the others are kept in order, and the new parameter goes last.
  It is compared with \<^const>\<open>nextUrl\<close>, which follows the code.
\<close>

definition spec_stripPage :: "string \<Rightarrow> string" where
  "spec_stripPage cur =
     (let path = takeWhile (\<lambda>c. c \<noteq> CHR ''?'') cur;
          query = drop (length path + 1) cur;
          params = filter (\<lambda>p. p \<noteq> [] \<and> \<not> prefix ''page='' p) (split_js query ''&'')
      in if params = [] then path else path @ ''?'' @ joinWith ''&'' params)"

definition spec_nextUrl :: "string \<Rightarrow> nat \<Rightarrow> string" where
  "spec_nextUrl cur count =
     (let stripped = spec_stripPage cur
      in stripped @ (if CHR ''?'' \<in> set stripped then ''&'' else ''?'')
           @ ''page='' @ natToString (count + 1))"

section \<open>Properties\<close>

subsection \<open>Auxiliary facts about the handlers\<close>

lemma handleScrapedData_inactive:
  "\<not> isScraping s \<Longrightarrow> handleScrapedData e s data = (s, [])"
  by (simp add: handleScrapedData_def)

lemma run_inactive_pageResults:
  "\<not> isScraping s \<Longrightarrow>
   run s (map (\<lambda>(e, d). (e, Message (PageScraped d))) ps)
     = (s, replicate (length ps) (SendResponse Received))"
  by (induction ps) (auto simp: handlePageScraped_def handleScrapedData_inactive)

lemma stopScraping_fields:
  "isScraping (fst (stopScraping s b)) = False"
  "allArticles (fst (stopScraping s b)) = allArticles s"
  "natureArticles (fst (stopScraping s b)) = natureArticles s"
  "issueCount (fst (stopScraping s b)) = issueCount s"
  "naturePageCount (fst (stopScraping s b)) = naturePageCount s"
  by (simp_all add: stopScraping_def Let_def split: option.splits)

lemma stopScraping_keep_tab:
  "\<not> truthyTab (scraperTabId (fst (stopScraping s False)))"
  "truthyTab (scraperTabId s) \<Longrightarrow> scraperTabId (fst (stopScraping s False)) = None"
  "snd (stopScraping s False) = [StatusUpdate (statusOf (fst (stopScraping s False)))]"
  by (auto simp add: stopScraping_def Let_def broadcastStatus_def split: option.splits)

lemma timerFired_inactive:
  "\<not> isScraping s \<Longrightarrow> timerFired s task = (s, [])"
  by (cases task) (simp_all split: option.splits)

lemma timerFired_state: "fst (timerFired s task) = s"
  by (cases task) (simp_all split: option.splits)

text \<open>
  The issue branch of \<^const>\<open>handleScrapedData\<close> when \<^verbatim>\<open>data.nextIssueUrl\<close> is falsy:
  everything before the final \<^const>\<open>stopScraping\<close> neither schedules nor touches the tab.
\<close>

lemma handleScrapedData_issue_end:
  assumes "isScraping s" "\<not> isNatureSearch d" "\<not> isHeartbeat d"
    and "\<not> truthyUrl (nextIssueUrl d)"
  shows "\<exists>s3 fx.
           handleScrapedData e s d
             = (fst (stopScraping s3 False), fx @ snd (stopScraping s3 False))
           \<and> filter isSetTimeout fx = [] \<and> filter isTabsUpdate fx = []
           \<and> filter isTabsRemove fx = []
           \<and> (truthyTab (scraperTabId s) \<longrightarrow> truthyTab (scraperTabId s3))"
  using assms
  by (cases "nextIssueUrl d")
     (auto simp: handleScrapedData_def Let_def broadcastStatus_def saveFile_def
        saveHtmlForDebug_def split_beta intro!: exI)

lemma handleNatureSearchData_state:
  "naturePageCount (fst (handleNatureSearchData e s d)) = naturePageCount s + 1"
  "natureArticles (fst (handleNatureSearchData e s d)) = natureArticles s @ articles d"
  "allArticles (fst (handleNatureSearchData e s d)) = allArticles s"
  "issueCount (fst (handleNatureSearchData e s d)) = issueCount s"
  by (simp_all add: handleNatureSearchData_def Let_def stopScraping_fields split_beta)

lemma handleNatureSearchData_files:
  "length (filter isSaveFile (snd (handleNatureSearchData e s d))) = 2"
  by (simp add: handleNatureSearchData_def Let_def split_beta saveFile_def broadcastStatus_def
        stopScraping_keep_tab)

lemma handleNatureSearchData_continue:
  "int (naturePageCount s + 1) < stopAtPage d \<Longrightarrow>
   filter isSetTimeout (snd (handleNatureSearchData e s d))
     = [SetTimeout (NavigateSearch (nextUrl (currentUrl d) (naturePageCount s + 1))) 2000]
   \<and> isScraping (fst (handleNatureSearchData e s d)) = isScraping s"
  by (simp add: handleNatureSearchData_def Let_def split_beta saveFile_def broadcastStatus_def)

lemma handleNatureSearchData_continue_tab:
  "int (naturePageCount s + 1) < stopAtPage d \<Longrightarrow>
   scraperTabId (fst (handleNatureSearchData e s d)) = scraperTabId s"
  by (simp add: handleNatureSearchData_def Let_def split_beta)

lemma handleNatureSearchData_stop:
  "\<not> int (naturePageCount s + 1) < stopAtPage d \<Longrightarrow>
   filter isSetTimeout (snd (handleNatureSearchData e s d)) = []
   \<and> \<not> isScraping (fst (handleNatureSearchData e s d))"
  by (simp add: handleNatureSearchData_def Let_def split_beta saveFile_def broadcastStatus_def
        stopScraping_keep_tab stopScraping_fields)

lemma handleScrapedData_monotone:
  "prefix (allArticles s) (allArticles (fst (handleScrapedData e s d)))
   \<and> prefix (natureArticles s) (natureArticles (fst (handleScrapedData e s d)))
   \<and> issueCount s \<le> issueCount (fst (handleScrapedData e s d))
   \<and> naturePageCount s \<le> naturePageCount (fst (handleScrapedData e s d))"
  by (simp add: handleScrapedData_def Let_def split_beta stopScraping_fields
        handleNatureSearchData_state split: option.splits)

lemma step_monotone:
  assumes "\<not> isStart ev"
  shows "prefix (allArticles s) (allArticles (fst (step e s ev)))
       \<and> prefix (natureArticles s) (natureArticles (fst (step e s ev)))
       \<and> issueCount s \<le> issueCount (fst (step e s ev))
       \<and> naturePageCount s \<le> naturePageCount (fst (step e s ev))"
proof (cases ev)
  case (Message m)
  show ?thesis
  proof (cases m)
    case (StartScraping u j)
    with Message assms show ?thesis by simp
  next
    case StopScraping
    with Message show ?thesis
      by (simp add: handleStopScraping_def split_beta stopScraping_fields)
  next
    case CheckStatus
    with Message show ?thesis by (simp add: handleCheckStatus_def)
  next
    case (PageScraped d)
    with Message handleScrapedData_monotone [of s e d] show ?thesis
      by (simp add: handlePageScraped_def split_beta)
  qed
next
  case (TabCreated t)
  then show ?thesis by simp
next
  case TabRemoved
  then show ?thesis by simp
next
  case (TimerFired task)
  then show ?thesis by (simp add: timerFired_state)
next
  case (NavigationDone cb err)
  then show ?thesis
    by (cases cb; cases "the cb") (auto simp: stopScraping_fields)
qed

lemma run_monotone:
  "\<forall>x \<in> set evs. \<not> isStart (snd x) \<Longrightarrow>
   prefix (allArticles s) (allArticles (fst (run s evs)))
   \<and> prefix (natureArticles s) (natureArticles (fst (run s evs)))
   \<and> issueCount s \<le> issueCount (fst (run s evs))
   \<and> naturePageCount s \<le> naturePageCount (fst (run s evs))"
proof (induction evs arbitrary: s)
  case Nil
  then show ?case by simp
next
  case (Cons x evs)
  obtain e ev where x: "x = (e, ev)" by (cases x)
  from Cons.prems x have ns: "\<not> isStart ev" by simp
  from Cons.prems have rest: "\<forall>x \<in> set evs. \<not> isStart (snd x)" by simp
  note a = step_monotone [OF ns, of s e]
  note b = Cons.IH [OF rest, of "fst (step e s ev)"]
  have r: "fst (run s (x # evs)) = fst (run (fst (step e s ev)) evs)"
    by (simp add: x split_beta)
  show ?case
    unfolding r using a b by (meson prefix_order.trans le_trans)
qed

subsection \<open>Results delivered while the session is inactive\<close>

text \<open>
  Claim C1. For every sequence of \<^verbatim>\<open>pageScraped\<close> payloads delivered while
  \<^verbatim>\<open>state.isScraping\<close> is false, the state after the whole sequence is the state
  before it, field for field, and nothing is handed to \<^verbatim>\<open>saveFile\<close>: the only outward
  action is the \<^verbatim>\<open>received\<close> response of the listener to each message.
\<close>

theorem inactive_pageResults_ignored:
  assumes "\<not> isScraping s"
  shows "run s (map (\<lambda>(e, d). (e, Message (PageScraped d))) ps)
           = (s, replicate (length ps) (SendResponse Received))
       \<and> filter isSaveFile (snd (run s (map (\<lambda>(e, d). (e, Message (PageScraped d))) ps))) = []"
proof -
  note r = run_inactive_pageResults [OF assms, of ps]
  show ?thesis unfolding r by simp
qed

theorem inactive_pageResults_ignored_witness:
  "\<not> isScraping initialState
   \<and> run initialState
       [(\<lparr>dateParse = Map.empty, now = \<lparr>getFullYear = 2024, getMonth = 0, getDate = 1\<rparr>,
          nowISO = ''2024-01-01T00:00:00.000Z''\<rparr>,
         Message (PageScraped
           \<lparr>articles = [\<lparr>title = ''A'', url = Some ''https://www.cell.com/a'', isOA = True,
                         articleJournal = None, articlePublicationDate = None\<rparr>],
            journal = ''Cell'', publicationDate = ''January 1, 2024'',
            htmlContent = ''<html></html>'', currentUrl = ''https://www.cell.com/cell/issue'',
            nextIssueUrl = Some ''https://www.cell.com/cell/issue2'', isNatureSearch = False,
            isHeartbeat = False, pagination = None\<rparr>)),
        (\<lparr>dateParse = Map.empty, now = \<lparr>getFullYear = 2024, getMonth = 0, getDate = 1\<rparr>,
          nowISO = ''2024-01-01T00:00:02.000Z''\<rparr>,
         Message (PageScraped
           \<lparr>articles = [], journal = ''Nature'', publicationDate = ''Unknown Date'',
            htmlContent = ''<html></html>'',
            currentUrl = ''https://www.nature.com/search?q=cell'', nextIssueUrl = None,
            isNatureSearch = True, isHeartbeat = False,
            pagination = Some \<lparr>totalResults = Some 1000, pageSize = 50\<rparr>\<rparr>))]
     = (initialState, [SendResponse Received, SendResponse Received])"
proof -
  have a: "\<not> isScraping initialState" by (simp add: initialState_def)
  show ?thesis
    using a
      inactive_pageResults_ignored [OF a, of
        "[(\<lparr>dateParse = Map.empty, now = \<lparr>getFullYear = 2024, getMonth = 0, getDate = 1\<rparr>,
            nowISO = ''2024-01-01T00:00:00.000Z''\<rparr>,
           \<lparr>articles = [\<lparr>title = ''A'', url = Some ''https://www.cell.com/a'', isOA = True,
                         articleJournal = None, articlePublicationDate = None\<rparr>],
            journal = ''Cell'', publicationDate = ''January 1, 2024'',
            htmlContent = ''<html></html>'', currentUrl = ''https://www.cell.com/cell/issue'',
            nextIssueUrl = Some ''https://www.cell.com/cell/issue2'', isNatureSearch = False,
            isHeartbeat = False, pagination = None\<rparr>),
          (\<lparr>dateParse = Map.empty, now = \<lparr>getFullYear = 2024, getMonth = 0, getDate = 1\<rparr>,
            nowISO = ''2024-01-01T00:00:02.000Z''\<rparr>,
           \<lparr>articles = [], journal = ''Nature'', publicationDate = ''Unknown Date'',
            htmlContent = ''<html></html>'',
            currentUrl = ''https://www.nature.com/search?q=cell'', nextIssueUrl = None,
            isNatureSearch = True, isHeartbeat = False,
            pagination = Some \<lparr>totalResults = Some 1000, pageSize = 50\<rparr>\<rparr>)]"]
    by (simp del: run.simps)
qed

subsection \<open>Starting while a session is active\<close>

text \<open>
  Claim C5, as the code has it. \<^verbatim>\<open>handleStartScraping\<close> has no guard on
  \<^verbatim>\<open>state.isScraping\<close>: whatever the state, active or not, it answers \<^verbatim>\<open>started\<close>,
  asks for a new tab, marks the session active under the journal of the message, and
  empties both article lists, both counters and the last title. The tab id of the
  session in progress stays in the state (until the callback of the new tab overwrites
  it), so the old tab is no longer driven by anything.
\<close>

theorem start_always_resets:
  "snd (handleStartScraping s u j) = [TabsCreate u, SendResponse Started]
   \<and> isScraping (fst (handleStartScraping s u j))
   \<and> currentJournal (fst (handleStartScraping s u j)) = j
   \<and> allArticles (fst (handleStartScraping s u j)) = []
   \<and> natureArticles (fst (handleStartScraping s u j)) = []
   \<and> issueCount (fst (handleStartScraping s u j)) = 0
   \<and> naturePageCount (fst (handleStartScraping s u j)) = 0
   \<and> lastScrapedTitle (fst (handleStartScraping s u j)) = []
   \<and> scraperTabId (fst (handleStartScraping s u j)) = scraperTabId s"
  by (simp add: handleStartScraping_def resetState_def)

text \<open>
  The claim as stated fails: a Cell session that has processed three issues receives a
  second \<^verbatim>\<open>startScraping\<close>. The answer is \<^verbatim>\<open>started\<close>, not a rejection, and the
  state of the session in progress is replaced.
\<close>

theorem start_while_active_not_rejected:
  "isScraping (initialState\<lparr>isScraping := True, scraperTabId := Some 7,
       currentJournal := Some ''cell'', issueCount := 3, lastScrapedTitle := ''A''\<rparr>)
   \<and> snd (handleStartScraping
        (initialState\<lparr>isScraping := True, scraperTabId := Some 7,
           currentJournal := Some ''cell'', issueCount := 3, lastScrapedTitle := ''A''\<rparr>)
        ''https://www.science.org/toc/science/391/6785'' (Some ''science''))
      = [TabsCreate ''https://www.science.org/toc/science/391/6785'', SendResponse Started]
   \<and> fst (handleStartScraping
        (initialState\<lparr>isScraping := True, scraperTabId := Some 7,
           currentJournal := Some ''cell'', issueCount := 3, lastScrapedTitle := ''A''\<rparr>)
        ''https://www.science.org/toc/science/391/6785'' (Some ''science''))
      = initialState\<lparr>isScraping := True, scraperTabId := Some 7,
           currentJournal := Some ''science''\<rparr>
   \<and> fst (handleStartScraping
        (initialState\<lparr>isScraping := True, scraperTabId := Some 7,
           currentJournal := Some ''cell'', issueCount := 3, lastScrapedTitle := ''A''\<rparr>)
        ''https://www.science.org/toc/science/391/6785'' (Some ''science''))
      \<noteq> initialState\<lparr>isScraping := True, scraperTabId := Some 7,
           currentJournal := Some ''cell'', issueCount := 3, lastScrapedTitle := ''A''\<rparr>"
  by (simp add: handleStartScraping_def resetState_def initialState_def)

subsection \<open>Heartbeats\<close>

text \<open>
  Claim C6, as the code has it. For every payload that carries the heartbeat flag and
  does not carry the search flag, processed while the session is active, the state is
  returned unchanged (no counter, no article list, no title) and the only action is one
  \<^verbatim>\<open>saveFile\<close> of the raw page HTML under \<^verbatim>\<open>chrome/{journal}/{yyyy}/{mmdd}.html\<close>:
  no status broadcast, no timer, no stop. Whether \<^verbatim>\<open>articles\<close> is empty plays no part.
\<close>

theorem heartbeat_only_saves_html:
  assumes "isScraping s" and "isHeartbeat d" and "\<not> isNatureSearch d"
  shows "handleScrapedData e s d =
           (s, [SaveFile (Html (htmlContent d))
                  (''chrome/'' @ journal d @ ''/''
                     @ take 4 (parsePublicationDate (dateParse e) (publicationDate d)) @ ''/''
                     @ drop 4 (parsePublicationDate (dateParse e) (publicationDate d)) @ ''.html'')
                  ''text/html''])"
  using assms by (simp add: handleScrapedData_def saveHtmlForDebug_def saveFile_def Let_def)

theorem heartbeat_only_saves_html_witness:
  "isScraping (initialState\<lparr>isScraping := True, scraperTabId := Some 7\<rparr>)
   \<and> handleScrapedData
       \<lparr>dateParse = [''March 3, 2024'' \<mapsto> \<lparr>getFullYear = 2024, getMonth = 2, getDate = 3\<rparr>],
        now = \<lparr>getFullYear = 2024, getMonth = 2, getDate = 9\<rparr>,
        nowISO = ''2024-03-09T00:00:00.000Z''\<rparr>
       (initialState\<lparr>isScraping := True, scraperTabId := Some 7\<rparr>)
       \<lparr>articles = [], journal = ''Cell'', publicationDate = ''March 3, 2024'',
        htmlContent = ''<html></html>'', currentUrl = ''https://www.cell.com/cell/issue'',
        nextIssueUrl = None, isNatureSearch = False, isHeartbeat = True, pagination = None\<rparr>
     = (initialState\<lparr>isScraping := True, scraperTabId := Some 7\<rparr>,
        [SaveFile (Html ''<html></html>'') ''chrome/Cell/2024/0303.html'' ''text/html''])"
  (is "isScraping ?s \<and> handleScrapedData ?e ?s ?d = _")
proof -
  have a: "isScraping ?s" by (simp add: initialState_def)
  have b: "isHeartbeat ?d" by simp
  have c: "\<not> isNatureSearch ?d" by simp
  have k: "parsePublicationDate (dateParse ?e) (publicationDate ?d) = ''20240303''"
    by (simp add: parsePublicationDate_def padStart_def intToString_def natToString.simps
          digitChar_def)
  show ?thesis
    using a heartbeat_only_saves_html [OF a b c, of ?e] unfolding k by simp
qed

text \<open>
  The claim as stated fails on a payload with empty \<^verbatim>\<open>articles\<close> and the heartbeat
  flag that also carries the search flag: the search page counter goes from 0 to 1, two
  files are written and the next page is scheduled.
\<close>

theorem heartbeat_with_search_flag_is_counted:
  "naturePageCount (fst (handleScrapedData
        \<lparr>dateParse = Map.empty, now = \<lparr>getFullYear = 2024, getMonth = 0, getDate = 1\<rparr>,
         nowISO = ''2024-01-01T00:00:00.000Z''\<rparr>
        (initialState\<lparr>isScraping := True, scraperTabId := Some 7\<rparr>)
        \<lparr>articles = [], journal = ''Nature'', publicationDate = ''Unknown Date'',
         htmlContent = ''<html></html>'', currentUrl = ''https://www.nature.com/search?q=cell'',
         nextIssueUrl = None, isNatureSearch = True, isHeartbeat = True,
         pagination = Some \<lparr>totalResults = Some 1000, pageSize = 50\<rparr>\<rparr>)) = 1
   \<and> snd (handleScrapedData
        \<lparr>dateParse = Map.empty, now = \<lparr>getFullYear = 2024, getMonth = 0, getDate = 1\<rparr>,
         nowISO = ''2024-01-01T00:00:00.000Z''\<rparr>
        (initialState\<lparr>isScraping := True, scraperTabId := Some 7\<rparr>)
        \<lparr>articles = [], journal = ''Nature'', publicationDate = ''Unknown Date'',
         htmlContent = ''<html></html>'', currentUrl = ''https://www.nature.com/search?q=cell'',
         nextIssueUrl = None, isNatureSearch = True, isHeartbeat = True,
         pagination = Some \<lparr>totalResults = Some 1000, pageSize = 50\<rparr>\<rparr>)
     = [StatusUpdate \<lparr>statusIsScraping = True, statusJournal = None, statusIssueCount = 1,
                     statusArticleCount = 0, statusLastScrapedTitle = ''''\<rparr>,
        SaveFile (Html ''<html></html>'') ''chrome/search/20240101/page01.html'' ''text/html'',
        SaveFile (SearchPage ''2024-01-01T00:00:00.000Z'' [])
          ''chrome/search/20240101/page01.json'' ''application/json'',
        SetTimeout (NavigateSearch ''https://www.nature.com/search?q=cell&page=2'') 2000]"
  by (simp add: handleScrapedData_def handleNatureSearchData_def initialState_def Let_def
        broadcastStatus_def statusOf_def saveFile_def stopAtPage_def nextUrl_def baseUrl_def
        split_js_def padStart_def intToString_def natToString.simps digitChar_def)

subsection \<open>End of the issue sequence\<close>

text \<open>
  Claim C7. For every issue payload (neither search flag nor heartbeat flag) whose
  \<^verbatim>\<open>nextIssueUrl\<close> is \<^verbatim>\<open>null\<close>, processed while the session is active: after this
  one call \<^verbatim>\<open>isScraping\<close> is false; no timer is set and no \<^verbatim>\<open>chrome.tabs.update\<close> is
  issued, and any timer set earlier does nothing when it fires; no
  \<^verbatim>\<open>chrome.tabs.remove\<close> is issued, so the tab stays open, and the script holds no
  usable tab id any more (a tab id it held is replaced by \<^verbatim>\<open>null\<close>).
\<close>

theorem issue_end_stops_session:
  assumes "isScraping s" and "\<not> isNatureSearch d" and "\<not> isHeartbeat d"
    and "nextIssueUrl d = None"
  shows "\<not> isScraping (fst (handleScrapedData e s d))
       \<and> filter isSetTimeout (snd (handleScrapedData e s d)) = []
       \<and> filter isTabsUpdate (snd (handleScrapedData e s d)) = []
       \<and> filter isTabsRemove (snd (handleScrapedData e s d)) = []
       \<and> \<not> truthyTab (scraperTabId (fst (handleScrapedData e s d)))
       \<and> (truthyTab (scraperTabId s) \<longrightarrow> scraperTabId (fst (handleScrapedData e s d)) = None)
       \<and> timerFired (fst (handleScrapedData e s d)) task = (fst (handleScrapedData e s d), [])"
proof -
  from assms have "\<not> truthyUrl (nextIssueUrl d)" by simp
  from handleScrapedData_issue_end [OF assms(1-3) this, of e]
  obtain s3 fx
    where h: "handleScrapedData e s d
                = (fst (stopScraping s3 False), fx @ snd (stopScraping s3 False))"
      and fx: "filter isSetTimeout fx = []" "filter isTabsUpdate fx = []"
        "filter isTabsRemove fx = []"
      and tab: "truthyTab (scraperTabId s) \<longrightarrow> truthyTab (scraperTabId s3)"
    by blast
  have inactive: "\<not> isScraping (fst (handleScrapedData e s d))"
    by (simp add: h stopScraping_fields)
  show ?thesis
    using fx tab inactive
    by (simp add: h stopScraping_keep_tab timerFired_inactive stopScraping_fields)
qed

theorem issue_end_stops_session_witness:
  "isScraping (initialState\<lparr>isScraping := True, scraperTabId := Some 7,
       currentJournal := Some ''cell''\<rparr>)
   \<and> truthyTab (scraperTabId (initialState\<lparr>isScraping := True, scraperTabId := Some 7,
       currentJournal := Some ''cell''\<rparr>))
   \<and> \<not> isScraping (fst (handleScrapedData
        \<lparr>dateParse = Map.empty, now = \<lparr>getFullYear = 2024, getMonth = 0, getDate = 1\<rparr>,
         nowISO = ''2024-01-01T00:00:00.000Z''\<rparr>
        (initialState\<lparr>isScraping := True, scraperTabId := Some 7,
           currentJournal := Some ''cell''\<rparr>)
        \<lparr>articles = [], journal = ''Cell'', publicationDate = ''Unknown Date'',
         htmlContent = ''<html></html>'', currentUrl = ''https://www.cell.com/cell/issue'',
         nextIssueUrl = None, isNatureSearch = False, isHeartbeat = False,
         pagination = None\<rparr>))
   \<and> scraperTabId (fst (handleScrapedData
        \<lparr>dateParse = Map.empty, now = \<lparr>getFullYear = 2024, getMonth = 0, getDate = 1\<rparr>,
         nowISO = ''2024-01-01T00:00:00.000Z''\<rparr>
        (initialState\<lparr>isScraping := True, scraperTabId := Some 7,
           currentJournal := Some ''cell''\<rparr>)
        \<lparr>articles = [], journal = ''Cell'', publicationDate = ''Unknown Date'',
         htmlContent = ''<html></html>'', currentUrl = ''https://www.cell.com/cell/issue'',
         nextIssueUrl = None, isNatureSearch = False, isHeartbeat = False,
         pagination = None\<rparr>)) = None
   \<and> filter isSetTimeout (snd (handleScrapedData
        \<lparr>dateParse = Map.empty, now = \<lparr>getFullYear = 2024, getMonth = 0, getDate = 1\<rparr>,
         nowISO = ''2024-01-01T00:00:00.000Z''\<rparr>
        (initialState\<lparr>isScraping := True, scraperTabId := Some 7,
           currentJournal := Some ''cell''\<rparr>)
        \<lparr>articles = [], journal = ''Cell'', publicationDate = ''Unknown Date'',
         htmlContent = ''<html></html>'', currentUrl = ''https://www.cell.com/cell/issue'',
         nextIssueUrl = None, isNatureSearch = False, isHeartbeat = False,
         pagination = None\<rparr>)) = []"
  (is "isScraping ?s \<and> truthyTab (scraperTabId ?s)
       \<and> \<not> isScraping (fst (handleScrapedData ?e ?s ?d)) \<and> _")
proof -
  have a: "isScraping ?s" by (simp add: initialState_def)
  have b: "\<not> isNatureSearch ?d" by simp
  have c: "\<not> isHeartbeat ?d" by simp
  have n: "nextIssueUrl ?d = None" by simp
  have t: "truthyTab (scraperTabId ?s)" by (simp add: initialState_def)
  note th = issue_end_stops_session [OF a b c n, of ?e]
  from th have p: "\<not> isScraping (fst (handleScrapedData ?e ?s ?d))" by blast
  from th t have q: "scraperTabId (fst (handleScrapedData ?e ?s ?d)) = None" by blast
  from th have r: "filter isSetTimeout (snd (handleScrapedData ?e ?s ?d)) = []" by blast
  show ?thesis using a t p q r by blast
qed

subsection \<open>Failure of a navigation\<close>

text \<open>
  Claim C8, evaluated on the code. In issue mode \<^verbatim>\<open>chrome.tabs.update\<close> is given a
  callback that stops the session, without closing the tab, when
  \<^verbatim>\<open>chrome.runtime.lastError\<close> is set. In search mode line 205 passes no callback: when
  the same failure is reported, no code runs and the session stays active. Both runs
  start from an active session on tab 7; each fires the timer and then reports the
  failure of the navigation it issued.
\<close>

theorem search_navigation_failure_keeps_session_active:
  "run (initialState\<lparr>isScraping := True, scraperTabId := Some 7,
          currentJournal := Some ''nature'', naturePageCount := 1\<rparr>)
     [(\<lparr>dateParse = Map.empty, now = \<lparr>getFullYear = 2024, getMonth = 0, getDate = 1\<rparr>,
        nowISO = ''2024-01-01T00:00:00.000Z''\<rparr>,
       TimerFired (NavigateSearch ''https://www.nature.com/search?q=cell&page=2'')),
      (\<lparr>dateParse = Map.empty, now = \<lparr>getFullYear = 2024, getMonth = 0, getDate = 1\<rparr>,
        nowISO = ''2024-01-01T00:00:01.000Z''\<rparr>,
       NavigationDone None True)]
   = (initialState\<lparr>isScraping := True, scraperTabId := Some 7,
        currentJournal := Some ''nature'', naturePageCount := 1\<rparr>,
      [TabsUpdate 7 ''https://www.nature.com/search?q=cell&page=2'' None])
   \<and> run (initialState\<lparr>isScraping := True, scraperTabId := Some 7,
          currentJournal := Some ''cell'', issueCount := 1\<rparr>)
     [(\<lparr>dateParse = Map.empty, now = \<lparr>getFullYear = 2024, getMonth = 0, getDate = 1\<rparr>,
        nowISO = ''2024-01-01T00:00:00.000Z''\<rparr>,
       TimerFired (NavigateIssue ''https://www.cell.com/cell/issue2'')),
      (\<lparr>dateParse = Map.empty, now = \<lparr>getFullYear = 2024, getMonth = 0, getDate = 1\<rparr>,
        nowISO = ''2024-01-01T00:00:01.000Z''\<rparr>,
       NavigationDone (Some IssueNavCallback) True)]
   = (initialState\<lparr>isScraping := False, scraperTabId := None,
        currentJournal := Some ''cell'', issueCount := 1\<rparr>,
      [TabsUpdate 7 ''https://www.cell.com/cell/issue2'' (Some IssueNavCallback),
       StatusUpdate \<lparr>statusIsScraping = False, statusJournal = Some ''cell'',
                     statusIssueCount = 1, statusArticleCount = 0,
                     statusLastScrapedTitle = ''''\<rparr>])"
  by (simp add: initialState_def stopScraping_def broadcastStatus_def statusOf_def)

subsection \<open>Accumulators within a session\<close>

text \<open>
  Claim C9. Along any run of events that holds no \<^verbatim>\<open>startScraping\<close> message (page
  results, stop, status queries, and the callbacks and timers of the Chrome API), both
  article lists only grow at the end (the list before is a prefix of the list after) and
  both page counters never decrease. The reset to empty lists and zero counters is what
  \<^verbatim>\<open>startScraping\<close> does, and nothing else does it.
\<close>

theorem accumulators_only_grow_until_next_start:
  assumes "\<forall>x \<in> set evs. \<not> isStart (snd x)"
  shows "prefix (allArticles s) (allArticles (fst (run s evs)))
       \<and> prefix (natureArticles s) (natureArticles (fst (run s evs)))
       \<and> issueCount s \<le> issueCount (fst (run s evs))
       \<and> naturePageCount s \<le> naturePageCount (fst (run s evs))
       \<and> allArticles (fst (step e s0 (Message (StartScraping u j)))) = []
       \<and> natureArticles (fst (step e s0 (Message (StartScraping u j)))) = []
       \<and> issueCount (fst (step e s0 (Message (StartScraping u j)))) = 0
       \<and> naturePageCount (fst (step e s0 (Message (StartScraping u j)))) = 0"
  using run_monotone [OF assms, of s]
  by (simp add: handleStartScraping_def resetState_def)

theorem accumulators_only_grow_until_next_start_witness:
  "issueCount (fst (run (initialState\<lparr>isScraping := True, scraperTabId := Some 7\<rparr>)
       [(\<lparr>dateParse = Map.empty, now = \<lparr>getFullYear = 2024, getMonth = 0, getDate = 1\<rparr>,
          nowISO = ''2024-01-01T00:00:00.000Z''\<rparr>,
         Message (PageScraped
           \<lparr>articles = [\<lparr>title = ''A'', url = Some ''https://www.cell.com/a'', isOA = True,
                         articleJournal = None, articlePublicationDate = None\<rparr>],
            journal = ''Cell'', publicationDate = ''Unknown Date'',
            htmlContent = ''<html></html>'', currentUrl = ''https://www.cell.com/cell/issue'',
            nextIssueUrl = Some ''https://www.cell.com/cell/issue2'', isNatureSearch = False,
            isHeartbeat = False, pagination = None\<rparr>)),
        (\<lparr>dateParse = Map.empty, now = \<lparr>getFullYear = 2024, getMonth = 0, getDate = 1\<rparr>,
          nowISO = ''2024-01-01T00:00:01.000Z''\<rparr>,
         Message CheckStatus),
        (\<lparr>dateParse = Map.empty, now = \<lparr>getFullYear = 2024, getMonth = 0, getDate = 1\<rparr>,
          nowISO = ''2024-01-01T00:00:01.500Z''\<rparr>,
         Message StopScraping)])) = 1
   \<and> prefix (allArticles (initialState\<lparr>isScraping := True, scraperTabId := Some 7\<rparr>))
       (allArticles (fst (run (initialState\<lparr>isScraping := True, scraperTabId := Some 7\<rparr>)
       [(\<lparr>dateParse = Map.empty, now = \<lparr>getFullYear = 2024, getMonth = 0, getDate = 1\<rparr>,
          nowISO = ''2024-01-01T00:00:00.000Z''\<rparr>,
         Message (PageScraped
           \<lparr>articles = [\<lparr>title = ''A'', url = Some ''https://www.cell.com/a'', isOA = True,
                         articleJournal = None, articlePublicationDate = None\<rparr>],
            journal = ''Cell'', publicationDate = ''Unknown Date'',
            htmlContent = ''<html></html>'', currentUrl = ''https://www.cell.com/cell/issue'',
            nextIssueUrl = Some ''https://www.cell.com/cell/issue2'', isNatureSearch = False,
            isHeartbeat = False, pagination = None\<rparr>)),
        (\<lparr>dateParse = Map.empty, now = \<lparr>getFullYear = 2024, getMonth = 0, getDate = 1\<rparr>,
          nowISO = ''2024-01-01T00:00:01.000Z''\<rparr>,
         Message CheckStatus),
        (\<lparr>dateParse = Map.empty, now = \<lparr>getFullYear = 2024, getMonth = 0, getDate = 1\<rparr>,
          nowISO = ''2024-01-01T00:00:01.500Z''\<rparr>,
         Message StopScraping)])))"
  (is "issueCount (fst (run ?s ?evs)) = 1 \<and> _")
proof -
  have a: "\<forall>x \<in> set ?evs. \<not> isStart (snd x)" by simp
  have c: "issueCount (fst (run ?s ?evs)) = 1"
    by (simp add: initialState_def handlePageScraped_def handleScrapedData_def Let_def
          split_beta handleCheckStatus_def handleStopScraping_def stopScraping_fields)
  from accumulators_only_grow_until_next_start [OF a, of ?s]
  have p: "prefix (allArticles ?s) (allArticles (fst (run ?s ?evs)))" by blast
  from c p show ?thesis by blast
qed

subsection \<open>Order of the dispatch\<close>

text \<open>
  Claim C10. For every payload that carries the search flag, processed while the
  session is active, \<^verbatim>\<open>handleScrapedData\<close> is \<^verbatim>\<open>handleNatureSearchData\<close>, whatever
  the heartbeat flag says, since line 99 is tested before line 105: the search page
  counter goes up by one, the articles are appended to \<^verbatim>\<open>natureArticles\<close>, two files
  are written, and the next page is scheduled exactly when the new page count is below
  \<^verbatim>\<open>stopAtPage\<close> (otherwise the session stops).
\<close>

theorem search_flag_precedes_heartbeat_flag:
  assumes "isScraping s" and "isNatureSearch d"
  shows "handleScrapedData e s d = handleNatureSearchData e s d
       \<and> naturePageCount (fst (handleScrapedData e s d)) = naturePageCount s + 1
       \<and> natureArticles (fst (handleScrapedData e s d)) = natureArticles s @ articles d
       \<and> length (filter isSaveFile (snd (handleScrapedData e s d))) = 2
       \<and> (int (naturePageCount s + 1) < stopAtPage d \<longrightarrow>
            filter isSetTimeout (snd (handleScrapedData e s d))
              = [SetTimeout (NavigateSearch (nextUrl (currentUrl d) (naturePageCount s + 1)))
                   2000])
       \<and> (\<not> int (naturePageCount s + 1) < stopAtPage d \<longrightarrow>
            filter isSetTimeout (snd (handleScrapedData e s d)) = []
            \<and> \<not> isScraping (fst (handleScrapedData e s d)))"
proof -
  have eq: "handleScrapedData e s d = handleNatureSearchData e s d"
    using assms by (simp add: handleScrapedData_def)
  show ?thesis
    unfolding eq
    using handleNatureSearchData_continue [of s d e] handleNatureSearchData_stop [of s d e]
    by (simp add: handleNatureSearchData_state handleNatureSearchData_files)
qed

theorem search_flag_precedes_heartbeat_flag_witness:
  "isScraping (initialState\<lparr>isScraping := True, scraperTabId := Some 7\<rparr>)
   \<and> naturePageCount (fst (handleScrapedData
        \<lparr>dateParse = Map.empty, now = \<lparr>getFullYear = 2024, getMonth = 0, getDate = 1\<rparr>,
         nowISO = ''2024-01-01T00:00:00.000Z''\<rparr>
        (initialState\<lparr>isScraping := True, scraperTabId := Some 7\<rparr>)
        \<lparr>articles = [], journal = ''Nature'', publicationDate = ''Unknown Date'',
         htmlContent = ''<html></html>'', currentUrl = ''https://www.nature.com/search?q=cell'',
         nextIssueUrl = None, isNatureSearch = True, isHeartbeat = True,
         pagination = Some \<lparr>totalResults = Some 1000, pageSize = 50\<rparr>\<rparr>)) = 1
   \<and> filter isSetTimeout (snd (handleScrapedData
        \<lparr>dateParse = Map.empty, now = \<lparr>getFullYear = 2024, getMonth = 0, getDate = 1\<rparr>,
         nowISO = ''2024-01-01T00:00:00.000Z''\<rparr>
        (initialState\<lparr>isScraping := True, scraperTabId := Some 7\<rparr>)
        \<lparr>articles = [], journal = ''Nature'', publicationDate = ''Unknown Date'',
         htmlContent = ''<html></html>'', currentUrl = ''https://www.nature.com/search?q=cell'',
         nextIssueUrl = None, isNatureSearch = True, isHeartbeat = True,
         pagination = Some \<lparr>totalResults = Some 1000, pageSize = 50\<rparr>\<rparr>))
      = [SetTimeout (NavigateSearch ''https://www.nature.com/search?q=cell&page=2'') 2000]"
  (is "isScraping ?s \<and> naturePageCount (fst (handleScrapedData ?e ?s ?d)) = 1 \<and> _")
proof -
  have a: "isScraping ?s" by (simp add: initialState_def)
  have b: "isNatureSearch ?d" by simp
  have c: "int (naturePageCount ?s + 1) < stopAtPage ?d"
    by (simp add: initialState_def stopAtPage_def)
  have n: "naturePageCount ?s = 0" by (simp add: initialState_def)
  note t = search_flag_precedes_heartbeat_flag [OF a b, of ?e]
  from t have p: "naturePageCount (fst (handleScrapedData ?e ?s ?d)) = naturePageCount ?s + 1"
    by blast
  from t c have q: "filter isSetTimeout (snd (handleScrapedData ?e ?s ?d))
      = [SetTimeout (NavigateSearch (nextUrl (currentUrl ?d) (naturePageCount ?s + 1))) 2000]"
    by blast
  show ?thesis using a p q
    by (simp add: n nextUrl_def baseUrl_def split_js_def natToString.simps digitChar_def)
qed

subsection \<open>Auxiliary facts about the string helpers\<close>

lemma ceiling_div_50: "\<lceil>real n / 50\<rceil> = int ((n + 49) div 50)"
proof -
  have "\<lceil>real n / 50\<rceil> = \<lceil>of_int (int n) / (of_int 50 :: real)\<rceil>" by simp
  also have "\<dots> = - (- int n div 50)" by (rule ceiling_divide_eq_div)
  also have "\<dots> = int ((n + 49) div 50)" by (simp add: zdiv_int) 
  finally show ?thesis .
qed

lemma splitAux_first:
  assumes "sep \<noteq> []"
  shows "(\<forall>i<length p. \<not> prefix sep (drop i (p @ sep @ r))) \<Longrightarrow>
         splitAux sep acc (p @ sep @ r) = (rev acc @ p) # splitAux sep [] r"
proof (induction p arbitrary: acc)
  case Nil
  obtain c cs where sep: "sep = c # cs" using assms by (cases sep) auto
  show ?case by (simp add: sep)
next
  case (Cons x p)
  from Cons.prems have "\<not> prefix sep (drop 0 ((x # p) @ sep @ r))" by blast
  then have np: "\<not> prefix sep (x # p @ sep @ r)" by simp
  have "\<forall>i<length p. \<not> prefix sep (drop i (p @ sep @ r))"
  proof (intro allI impI)
    fix i assume "i < length p"
    then have "Suc i < length (x # p)" by simp
    with Cons.prems have "\<not> prefix sep (drop (Suc i) ((x # p) @ sep @ r))" by blast
    then show "\<not> prefix sep (drop i (p @ sep @ r))" by simp
  qed
  from Cons.IH [OF this, of "x # acc"] np show ?case by simp
qed

lemma splitAux_none:
  "(\<forall>i<length u. \<not> prefix sep (drop i u)) \<Longrightarrow> splitAux sep acc u = [rev acc @ u]"
proof (induction u arbitrary: acc)
  case Nil
  then show ?case by simp
next
  case (Cons x u)
  from Cons.prems have "\<not> prefix sep (drop 0 (x # u))" by blast
  then have np: "\<not> prefix sep (x # u)" by simp
  have "\<forall>i<length u. \<not> prefix sep (drop i u)"
  proof (intro allI impI)
    fix i assume "i < length u"
    then have "Suc i < length (x # u)" by simp
    with Cons.prems have "\<not> prefix sep (drop (Suc i) (x # u))" by blast
    then show "\<not> prefix sep (drop i u)" by simp
  qed
  from Cons.IH [OF this, of "x # acc"] np show ?case by simp
qed

lemma occurrence_at:
  assumes "prefix sep (drop i u)" and "i \<le> length u"
  shows "\<exists>p r. u = p @ sep @ r \<and> length p = i"
proof -
  from assms(1) obtain r where "drop i u = sep @ r" by (auto simp: prefix_def)
  then have "u = take i u @ sep @ r" by (metis append_take_drop_id)
  moreover have "length (take i u) = i" using assms(2) by simp
  ultimately show ?thesis by blast
qed

lemma baseUrl_first:
  assumes "cur = p @ ''&page='' @ r"
    and "\<forall>p' r'. cur = p' @ ''&page='' @ r' \<longrightarrow> length p \<le> length p'"
  shows "baseUrl cur = p"
proof -
  have "\<forall>i<length p. \<not> prefix ''&page='' (drop i (p @ ''&page='' @ r))"
  proof (intro allI impI notI)
    fix i assume i: "i < length p" and pre: "prefix ''&page='' (drop i (p @ ''&page='' @ r))"
    from i have "i \<le> length (p @ ''&page='' @ r)" by simp
    from occurrence_at [OF pre this] obtain p' r'
      where "p @ ''&page='' @ r = p' @ ''&page='' @ r'" and "length p' = i" by blast
    with assms i show False by force
  qed
  from splitAux_first [OF _ this, of "[]"] show ?thesis
    by (simp add: baseUrl_def split_js_def assms(1))
qed

lemma baseUrl_none:
  assumes "\<forall>p r. cur \<noteq> p @ ''&page='' @ r"
  shows "baseUrl cur = cur"
proof -
  have "\<forall>i<length cur. \<not> prefix ''&page='' (drop i cur)"
  proof (intro allI impI notI)
    fix i assume i: "i < length cur" and pre: "prefix ''&page='' (drop i cur)"
    from i have "i \<le> length cur" by simp
    from occurrence_at [OF pre this] assms show False by blast
  qed
  from splitAux_none [OF this, of "[]"] show ?thesis
    by (simp add: baseUrl_def split_js_def)
qed


lemma first_by_position:
  assumes "\<forall>i<length p. \<not> prefix sep (drop i cur)"
  shows "\<forall>p' r'. cur = p' @ sep @ r' \<longrightarrow> length p \<le> length p'"
proof (intro allI impI)
  fix p' r' assume c: "cur = p' @ sep @ r'"
  then have "prefix sep (drop (length p') cur)" by simp
  with assms show "length p \<le> length p'" by (meson not_le)
qed

lemma none_by_position:
  assumes "\<forall>i<length cur. \<not> prefix sep (drop i cur)" and "sep \<noteq> []"
  shows "\<forall>p' r'. cur \<noteq> p' @ sep @ r'"
proof (intro allI notI)
  fix p' r' assume c: "cur = p' @ sep @ r'"
  then have "prefix sep (drop (length p') cur)" by simp
  moreover from c assms(2) have "length p' < length cur" by (cases sep) auto
  ultimately show False using assms(1) by blast
qed

lemma all_below_by_list: "list_all P [0..<n] \<Longrightarrow> \<forall>i<n. P i"
  by (simp add: list_all_iff)

lemma yearAt_iff:
  "yearAt s = Some y \<longleftrightarrow>
     (\<exists>r. s = y @ r \<and> length y = 4 \<and> take 2 y = ''20'' \<and> isDigit (y ! 2) \<and> isDigit (y ! 3)
          \<and> (r = [] \<or> \<not> isWordChar (hd r)))"
proof
  assume "yearAt s = Some y"
  then show "\<exists>r. s = y @ r \<and> length y = 4 \<and> take 2 y = ''20'' \<and> isDigit (y ! 2)
      \<and> isDigit (y ! 3) \<and> (r = [] \<or> \<not> isWordChar (hd r))"
    by (erule_tac yearAt.elims) (auto split: if_splits list.splits)
next
  assume "\<exists>r. s = y @ r \<and> length y = 4 \<and> take 2 y = ''20'' \<and> isDigit (y ! 2)
      \<and> isDigit (y ! 3) \<and> (r = [] \<or> \<not> isWordChar (hd r))"
  then obtain r where s: "s = y @ r" and l: "length y = 4" and t: "take 2 y = ''20''"
    and d: "isDigit (y ! 2)" "isDigit (y ! 3)" and rb: "r = [] \<or> \<not> isWordChar (hd r)"
    by blast
  from l obtain a b c e where y: "y = [a, b, c, e]"
    by (auto simp: numeral_eq_Suc length_Suc_conv)
  from t y have ab: "a = CHR ''2''" "b = CHR ''0''" by simp_all
  from d y have cd: "isDigit c" "isDigit e" by simp_all
  show "yearAt s = Some y"
    using rb by (cases r) (simp_all add: s y ab cd)
qed

lemma yearTokenAfter_Nil:
  "yearTokenAfter b [] y r \<longleftrightarrow> \<not> b \<and> yearAt (y @ r) = Some y"
  by (simp add: yearTokenAfter_def yearAt_iff) blast

lemma yearTokenAfter_Cons:
  "yearTokenAfter b (x # p) y r \<longleftrightarrow> yearTokenAfter (isWordChar x) p y r"
  by (cases p) (simp_all add: yearTokenAfter_def)

lemma yearTokenAfter_length: "yearTokenAfter b p y r \<Longrightarrow> length y = 4"
  by (simp add: yearTokenAfter_def)

lemma yearToken_after: "yearToken p y r \<longleftrightarrow> yearTokenAfter False p y r"
  by (simp add: yearToken_def yearTokenAfter_def)

lemma matchYear_Cons_Some:
  "matchYear b (x # s) = Some y \<longleftrightarrow>
     (\<not> b \<and> yearAt (x # s) = Some y)
     \<or> ((b \<or> yearAt (x # s) = None) \<and> matchYear (isWordChar x) s = Some y)"
  by (cases "yearAt (x # s)") auto

lemma matchYear_Cons_None:
  "matchYear b (x # s) = None \<longleftrightarrow>
     (b \<or> yearAt (x # s) = None) \<and> matchYear (isWordChar x) s = None"
  by (cases "yearAt (x # s)") auto

lemma matchYear_Some_first:
  "matchYear b s = Some y \<Longrightarrow>
   \<exists>p r. s = p @ y @ r \<and> yearTokenAfter b p y r
     \<and> (\<forall>p' y' r'. s = p' @ y' @ r' \<longrightarrow> yearTokenAfter b p' y' r' \<longrightarrow> length p \<le> length p')"
proof (induction s arbitrary: b)
  case Nil
  then show ?case by simp
next
  case (Cons x s)
  from Cons.prems [unfolded matchYear_Cons_Some]
  consider (here) "\<not> b" "yearAt (x # s) = Some y"
    | (later) "b \<or> yearAt (x # s) = None" "matchYear (isWordChar x) s = Some y"
    by auto
  then show ?case
  proof cases
    case here
    from here(2) [unfolded yearAt_iff] obtain r where r: "x # s = y @ r" by blast
    with here have t: "yearTokenAfter b [] y r" by (simp add: yearTokenAfter_Nil)
    have "x # s = [] @ y @ r" using r by simp
    moreover have "\<forall>p' y' r'. x # s = p' @ y' @ r' \<longrightarrow> yearTokenAfter b p' y' r'
        \<longrightarrow> length ([] :: string) \<le> length p'" by simp
    ultimately show ?thesis using t by blast
  next
    case later
    from Cons.IH [OF later(2)] obtain p r where
      s: "s = p @ y @ r" and t: "yearTokenAfter (isWordChar x) p y r"
      and mn: "\<forall>p' y' r'. s = p' @ y' @ r' \<longrightarrow> yearTokenAfter (isWordChar x) p' y' r'
                 \<longrightarrow> length p \<le> length p'"
      by blast
    have s': "x # s = (x # p) @ y @ r" using s by simp
    have t': "yearTokenAfter b (x # p) y r" using t by (simp add: yearTokenAfter_Cons)
    have mn': "\<forall>p' y' r'. x # s = p' @ y' @ r' \<longrightarrow> yearTokenAfter b p' y' r'
                 \<longrightarrow> length (x # p) \<le> length p'"
    proof (intro allI impI)
      fix p' y' r'
      assume e: "x # s = p' @ y' @ r'" and k: "yearTokenAfter b p' y' r'"
      show "length (x # p) \<le> length p'"
      proof (cases p')
        case Nil
        with e k have "\<not> b" "yearAt (x # s) = Some y'" by (simp_all add: yearTokenAfter_Nil)
        with later(1) show ?thesis by simp
      next
        case (Cons x' p'')
        with e have x': "x' = x" and e': "s = p'' @ y' @ r'" by simp_all
        from k Cons x' have "yearTokenAfter (isWordChar x) p'' y' r'"
          by (simp add: yearTokenAfter_Cons)
        with mn e' have "length p \<le> length p''" by blast
        with Cons show ?thesis by simp
      qed
    qed
    from s' t' mn' show ?thesis by blast
  qed
qed

lemma matchYear_None_no_token:
  "matchYear b s = None \<Longrightarrow> s = p @ y @ r \<Longrightarrow> \<not> yearTokenAfter b p y r"
proof (induction s arbitrary: b p)
  case Nil
  then show ?case by (auto simp: yearTokenAfter_def)
next
  case (Cons x s)
  from Cons.prems(1) [unfolded matchYear_Cons_None]
  have c: "b \<or> yearAt (x # s) = None" and m: "matchYear (isWordChar x) s = None" by simp_all
  show ?case
  proof (cases p)
    case Nil
    show ?thesis
    proof
      assume "yearTokenAfter b p y r"
      with Nil Cons.prems(2) have "\<not> b" "yearAt (x # s) = Some y"
        by (simp_all add: yearTokenAfter_Nil)
      with c show False by simp
    qed
  next
    case (Cons x' p'')
    with Cons.prems(2) have x': "x' = x" and e': "s = p'' @ y @ r" by simp_all
    from Cons.IH [OF m e'] show ?thesis
      by (simp add: Cons x' yearTokenAfter_Cons)
  qed
qed

lemma matchYear_first_token:
  assumes "s = p @ y @ r" and "yearToken p y r"
    and "\<forall>p' y' r'. s = p' @ y' @ r' \<longrightarrow> yearToken p' y' r' \<longrightarrow> length p \<le> length p'"
  shows "matchYear False s = Some y"
proof (cases "matchYear False s")
  case None
  from matchYear_None_no_token [OF None assms(1)] assms(2) show ?thesis
    by (simp add: yearToken_after)
next
  case (Some y2)
  from matchYear_Some_first [OF Some] obtain p2 r2 where
    s2: "s = p2 @ y2 @ r2" and t2: "yearToken p2 y2 r2"
    and mn: "\<forall>p' y' r'. s = p' @ y' @ r' \<longrightarrow> yearToken p' y' r' \<longrightarrow> length p2 \<le> length p'"
    unfolding yearToken_after by blast
  from mn assms(1,2) have "length p2 \<le> length p" by blast
  moreover from assms(3) s2 t2 have "length p \<le> length p2" by blast
  ultimately have l: "length p = length p2" by simp
  from assms(1) s2 have e: "p @ y @ r = p2 @ y2 @ r2" by simp
  with l have "y @ r = y2 @ r2" by simp
  moreover from assms(2) t2 have "length y = length y2" by (simp add: yearToken_def)
  ultimately have "y = y2" by simp
  with Some show ?thesis by simp
qed

lemma matchYear_no_token:
  assumes "\<forall>p y r. s = p @ y @ r \<longrightarrow> \<not> yearToken p y r"
  shows "matchYear False s = None"
proof (cases "matchYear False s")
  case None
  then show ?thesis .
next
  case (Some y2)
  from matchYear_Some_first [OF Some] obtain p2 r2 where
    "s = p2 @ y2 @ r2" and "yearToken p2 y2 r2"
    unfolding yearToken_after by blast
  with assms show ?thesis by blast
qed

lemma first_token_by_position:
  assumes "\<forall>i<length p. \<not> yearToken (take i s) (take 4 (drop i s)) (drop (i + 4) s)"
  shows "\<forall>p' y' r'. s = p' @ y' @ r' \<longrightarrow> yearToken p' y' r' \<longrightarrow> length p \<le> length p'"
proof (intro allI impI)
  fix p' y' r' assume s: "s = p' @ y' @ r'" and t: "yearToken p' y' r'"
  from t have l: "length y' = 4" by (simp add: yearToken_def)
  have "take (length p') s = p'" "take 4 (drop (length p') s) = y'"
    "drop (length p' + 4) s = r'"
    using s l by simp_all
  with t have "yearToken (take (length p') s) (take 4 (drop (length p') s))
      (drop (length p' + 4) s)" by simp
  with assms show "length p \<le> length p'" by (meson not_le)
qed

lemma no_token_by_position:
  assumes "\<forall>i<length s. \<not> yearToken (take i s) (take 4 (drop i s)) (drop (i + 4) s)"
  shows "\<forall>p y r. s = p @ y @ r \<longrightarrow> \<not> yearToken p y r"
proof (intro allI impI notI)
  fix p y r assume s: "s = p @ y @ r" and t: "yearToken p y r"
  from t have l: "length y = 4" by (simp add: yearToken_def)
  have "take (length p) s = p" "take 4 (drop (length p) s) = y"
    "drop (length p + 4) s = r"
    using s l by simp_all
  with t have "yearToken (take (length p) s) (take 4 (drop (length p) s))
      (drop (length p + 4) s)" by simp
  moreover from s l have "length p < length s" by simp
  ultimately show False using assms by blast
qed

lemma natToString_small: "n < 10 \<Longrightarrow> natToString n = [digitChar n]"
  by (simp add: natToString.simps)

lemma natToString_step: "10 \<le> n \<Longrightarrow> natToString n = natToString (n div 10) @ [digitChar n]"
  by (subst natToString.simps) simp

lemma natToString_length4:
  assumes "1000 \<le> n" and "n \<le> 9999"
  shows "length (natToString n) = 4"
proof -
  have a: "10 \<le> n" "10 \<le> n div 10" "10 \<le> n div 10 div 10" "n div 10 div 10 div 10 < 10"
    using assms by simp_all
  show ?thesis
    by (simp add: natToString_step [OF a(1)] natToString_step [OF a(2)]
          natToString_step [OF a(3)] natToString_small [OF a(4)])
qed

lemma padStart_two_digits:
  assumes "n < 100"
  shows "padStart 2 CHR ''0'' (natToString n) = [digitChar (n div 10), digitChar n]"
proof (cases "n < 10")
  case True
  then show ?thesis by (simp add: natToString_small padStart_def digitChar_def)
next
  case False
  then have a: "10 \<le> n" by simp
  from assms have b: "n div 10 < 10" by simp
  show ?thesis by (simp add: natToString_step [OF a] natToString_small [OF b] padStart_def)
qed

subsection \<open>The page at which a search session stops\<close>

text \<open>
  Claim C2, as the code has it. The divisor at line 194 is the constant 50: whatever
  \<^verbatim>\<open>pageSize\<close> the payload carries, \<^verbatim>\<open>stopAtPage\<close> is the specification's formula
  taken at page size 50, that is \<^verbatim>\<open>min(ceil(totalResults / 50), 20)\<close>; a missing
  \<^verbatim>\<open>pagination\<close> or an unparsable \<^verbatim>\<open>totalResults\<close> counts as 0 results and gives 0.
  The two examples of the specification, both with page size 50, hold: 1000 results
  give 20 and 40 results give 1.
\<close>

theorem stopAtPage_divides_by_fifty:
  "stopAtPage (d\<lparr>pagination := Some \<lparr>totalResults = Some n, pageSize = ps\<rparr>\<rparr>)
     = spec_stopAtPage n 50
   \<and> spec_stopAtPage n 50 = min (int ((n + 49) div 50)) 20
   \<and> stopAtPage (d\<lparr>pagination := Some \<lparr>totalResults = None, pageSize = ps\<rparr>\<rparr>) = 0
   \<and> stopAtPage (d\<lparr>pagination := None\<rparr>) = 0
   \<and> stopAtPage (d\<lparr>pagination := Some \<lparr>totalResults = Some 1000, pageSize = 50\<rparr>\<rparr>) = 20
   \<and> stopAtPage (d\<lparr>pagination := Some \<lparr>totalResults = Some 40, pageSize = 50\<rparr>\<rparr>) = 1"
  by (simp add: stopAtPage_def spec_stopAtPage_def ceiling_div_50)

text \<open>
  The claim as stated fails when the page size is not 50: for 100 results in pages of
  25 the specification's formula gives 4 pages, the code stops at page 2.
\<close>

theorem stopAtPage_ignores_pageSize:
  "stopAtPage \<lparr>articles = [], journal = ''Nature'', publicationDate = '''',
       htmlContent = ''<html></html>'', currentUrl = ''https://www.nature.com/search?q=cell'',
       nextIssueUrl = None, isNatureSearch = True, isHeartbeat = False,
       pagination = Some \<lparr>totalResults = Some 100, pageSize = 25\<rparr>\<rparr> = 2
   \<and> spec_stopAtPage 100 25 = 4"
  by (simp add: stopAtPage_def spec_stopAtPage_def)

subsection \<open>The next search URL\<close>

text \<open>
  Claim C3, as the code has it. For every search payload processed while the session is
  active with the new page count strictly below \<^verbatim>\<open>stopAtPage\<close>, exactly one timer is
  set, for the URL made of the part of \<^verbatim>\<open>currentUrl\<close> that precedes its first
  \<^verbatim>\<open>&page=\<close> (all of \<^verbatim>\<open>currentUrl\<close> when it holds no \<^verbatim>\<open>&page=\<close>), followed by
  \<^verbatim>\<open>&page=\<close> and the new page count plus one; when the timer fires with the
  session still on its tab, that URL is handed to \<^verbatim>\<open>chrome.tabs.update\<close>. Whatever follows the first
  \<^verbatim>\<open>&page=\<close> is dropped with it, and a \<^verbatim>\<open>page=\<close> parameter that comes right after
  the \<^verbatim>\<open>?\<close> is kept.
\<close>

theorem search_next_url:
  assumes "isScraping s" and "isNatureSearch d"
    and "int (naturePageCount s + 1) < stopAtPage d"
  shows "filter isSetTimeout (snd (handleScrapedData e s d))
           = [SetTimeout (NavigateSearch (nextUrl (currentUrl d) (naturePageCount s + 1))) 2000]
       \<and> (currentUrl d = p @ ''&page='' @ r \<longrightarrow>
            (\<forall>p' r'. currentUrl d = p' @ ''&page='' @ r' \<longrightarrow> length p \<le> length p') \<longrightarrow>
            nextUrl (currentUrl d) (naturePageCount s + 1)
              = p @ ''&page='' @ natToString (naturePageCount s + 2))
       \<and> ((\<forall>p' r'. currentUrl d \<noteq> p' @ ''&page='' @ r') \<longrightarrow>
            nextUrl (currentUrl d) (naturePageCount s + 1)
              = currentUrl d @ ''&page='' @ natToString (naturePageCount s + 2))
       \<and> (scraperTabId s = Some t \<longrightarrow> t \<noteq> 0 \<longrightarrow>
            timerFired (fst (handleScrapedData e s d))
                (NavigateSearch (nextUrl (currentUrl d) (naturePageCount s + 1)))
              = (fst (handleScrapedData e s d),
                 [TabsUpdate t (nextUrl (currentUrl d) (naturePageCount s + 1)) None]))"
proof -
  have eq: "handleScrapedData e s d = handleNatureSearchData e s d"
    using assms by (simp add: handleScrapedData_def)
  have f: "scraperTabId s = Some t \<longrightarrow> t \<noteq> 0 \<longrightarrow>
            timerFired (fst (handleScrapedData e s d))
                (NavigateSearch (nextUrl (currentUrl d) (naturePageCount s + 1)))
              = (fst (handleScrapedData e s d),
                 [TabsUpdate t (nextUrl (currentUrl d) (naturePageCount s + 1)) None])"
    unfolding eq
    using handleNatureSearchData_continue [OF assms(3), of e]
      handleNatureSearchData_continue_tab [OF assms(3), of e] assms(1)
    by simp
  have a: "filter isSetTimeout (snd (handleScrapedData e s d))
           = [SetTimeout (NavigateSearch (nextUrl (currentUrl d) (naturePageCount s + 1))) 2000]"
    unfolding eq using handleNatureSearchData_continue [OF assms(3), of e] by simp
  have b: "currentUrl d = p @ ''&page='' @ r \<longrightarrow>
            (\<forall>p' r'. currentUrl d = p' @ ''&page='' @ r' \<longrightarrow> length p \<le> length p') \<longrightarrow>
            nextUrl (currentUrl d) (naturePageCount s + 1)
              = p @ ''&page='' @ natToString (naturePageCount s + 2)"
    using baseUrl_first [of "currentUrl d" p r] by (simp add: nextUrl_def)
  have c: "(\<forall>p' r'. currentUrl d \<noteq> p' @ ''&page='' @ r') \<longrightarrow>
            nextUrl (currentUrl d) (naturePageCount s + 1)
              = currentUrl d @ ''&page='' @ natToString (naturePageCount s + 2)"
    using baseUrl_none [of "currentUrl d"] by (simp add: nextUrl_def)
  from a b c f show ?thesis by blast
qed

theorem search_next_url_witness:
  "filter isSetTimeout (snd (handleScrapedData
        \<lparr>dateParse = Map.empty, now = \<lparr>getFullYear = 2024, getMonth = 0, getDate = 1\<rparr>,
         nowISO = ''2024-01-01T00:00:00.000Z''\<rparr>
        (initialState\<lparr>isScraping := True, scraperTabId := Some 7, naturePageCount := 1\<rparr>)
        \<lparr>articles = [], journal = ''Nature'', publicationDate = '''',
         htmlContent = ''<html></html>'',
         currentUrl = ''https://www.nature.com/search?q=cell&page=2&order=date_desc'',
         nextIssueUrl = None, isNatureSearch = True, isHeartbeat = False,
         pagination = Some \<lparr>totalResults = Some 1000, pageSize = 50\<rparr>\<rparr>))
     = [SetTimeout (NavigateSearch ''https://www.nature.com/search?q=cell&page=3'') 2000]
   \<and> filter isSetTimeout (snd (handleScrapedData
        \<lparr>dateParse = Map.empty, now = \<lparr>getFullYear = 2024, getMonth = 0, getDate = 1\<rparr>,
         nowISO = ''2024-01-01T00:00:00.000Z''\<rparr>
        (initialState\<lparr>isScraping := True, scraperTabId := Some 7\<rparr>)
        \<lparr>articles = [], journal = ''Nature'', publicationDate = '''',
         htmlContent = ''<html></html>'',
         currentUrl = ''https://www.nature.com/search?q=cell'',
         nextIssueUrl = None, isNatureSearch = True, isHeartbeat = False,
         pagination = Some \<lparr>totalResults = Some 1000, pageSize = 50\<rparr>\<rparr>))
     = [SetTimeout (NavigateSearch ''https://www.nature.com/search?q=cell&page=2'') 2000]"
  (is "filter isSetTimeout (snd (handleScrapedData ?e ?s1 ?d1)) = _
       \<and> filter isSetTimeout (snd (handleScrapedData ?e ?s2 ?d2)) = _")
proof -
  have a1: "isScraping ?s1" and a2: "isScraping ?s2" by (simp_all add: initialState_def)
  have b1: "isNatureSearch ?d1" and b2: "isNatureSearch ?d2" by simp_all
  have c1: "int (naturePageCount ?s1 + 1) < stopAtPage ?d1"
    and c2: "int (naturePageCount ?s2 + 1) < stopAtPage ?d2"
    by (simp_all add: initialState_def stopAtPage_def)
  have n1: "naturePageCount ?s1 = 1" and n2: "naturePageCount ?s2 = 0"
    by (simp_all add: initialState_def)
  have u1: "currentUrl ?d1 = ''https://www.nature.com/search?q=cell'' @ ''&page='' @ ''2&order=date_desc''"
    by simp
  have u2: "currentUrl ?d2 = ''https://www.nature.com/search?q=cell''" by simp
  have m1: "\<forall>p' r'. currentUrl ?d1 = p' @ ''&page='' @ r'
              \<longrightarrow> length ''https://www.nature.com/search?q=cell'' \<le> length p'"
    unfolding scraped_data.simps
    by (rule first_by_position) (rule all_below_by_list, code_simp)
  have m2: "\<forall>p' r'. currentUrl ?d2 \<noteq> p' @ ''&page='' @ r'"
    unfolding scraped_data.simps
    by (rule none_by_position, rule all_below_by_list, code_simp) simp
  note t1 = search_next_url [OF a1 b1 c1, of ?e "''https://www.nature.com/search?q=cell''"
      "''2&order=date_desc''"]
  note t2 = search_next_url [OF a2 b2 c2, of ?e]
  from t1 [THEN conjunct2, THEN conjunct1] u1 m1
  have x1: "nextUrl (currentUrl ?d1) (naturePageCount ?s1 + 1)
       = ''https://www.nature.com/search?q=cell'' @ ''&page='' @ natToString (naturePageCount ?s1 + 2)"
    by blast
  from t2 [THEN conjunct2, THEN conjunct2, THEN conjunct1] m2
  have x2: "nextUrl (currentUrl ?d2) (naturePageCount ?s2 + 1)
       = currentUrl ?d2 @ ''&page='' @ natToString (naturePageCount ?s2 + 2)"
    by blast
  have y1: "filter isSetTimeout (snd (handleScrapedData ?e ?s1 ?d1))
     = [SetTimeout (NavigateSearch ''https://www.nature.com/search?q=cell&page=3'') 2000]"
    using t1 [THEN conjunct1] x1 by (simp add: n1 natToString.simps digitChar_def)
  have y2: "filter isSetTimeout (snd (handleScrapedData ?e ?s2 ?d2))
     = [SetTimeout (NavigateSearch ''https://www.nature.com/search?q=cell&page=2'') 2000]"
    using t2 [THEN conjunct1] x2 by (simp add: n2 natToString.simps digitChar_def)
  from y1 y2 show ?thesis by (rule conjI)
qed

text \<open>
  The claim as stated fails: with a parameter after \<^verbatim>\<open>page=\<close> the code drops that
  parameter too, and with \<^verbatim>\<open>page=\<close> first in the query string the code strips nothing
  and the new URL carries two \<^verbatim>\<open>page=\<close> parameters. In both cases stripping the
  \<^verbatim>\<open>page=\<close> parameter and appending the new one gives another URL.
\<close>

theorem nextUrl_drops_what_follows_page:
  "nextUrl ''https://www.nature.com/search?q=cell&page=2&order=date_desc'' 2
     = ''https://www.nature.com/search?q=cell&page=3''
   \<and> spec_nextUrl ''https://www.nature.com/search?q=cell&page=2&order=date_desc'' 2
     = ''https://www.nature.com/search?q=cell&order=date_desc&page=3''
   \<and> nextUrl ''https://www.nature.com/search?page=2&q=cell'' 2
     = ''https://www.nature.com/search?page=2&q=cell&page=3''
   \<and> spec_nextUrl ''https://www.nature.com/search?page=2&q=cell'' 2
     = ''https://www.nature.com/search?q=cell&page=3''"
  by (simp add: nextUrl_def baseUrl_def spec_nextUrl_def spec_stripPage_def split_js_def
        Let_def natToString.simps digitChar_def)

subsection \<open>Normalisation of the publication date\<close>

text \<open>
  Claim C4, as the code has it. When the engine parses the string into a date (with a
  month index up to 11 and a day up to 31), the key is the decimal year followed by the
  two-digit month and the two-digit day, eight characters for a year from 1000 to 9999.
  When it does not and the string holds a token \<^verbatim>\<open>20dd\<close> with a word boundary on
  each side (\<^const>\<open>yearToken\<close>), the key is \<^verbatim>\<open>{year}_unknown\<close> for the first such
  token, the one with the shortest text before it; and when the string holds no such
  token the key is \<^verbatim>\<open>unknown_year_unknown\<close>. The two examples of
  the specification hold for every engine that parses \<^verbatim>\<open>March 3, 2024\<close> to that day
  and rejects \<^verbatim>\<open>Volume 12, 2023 (date unparseable)\<close>.
\<close>

theorem parsePublicationDate_cases:
  "(parse pubDate = Some date \<longrightarrow> getMonth date \<le> 11 \<longrightarrow> getDate date \<le> 31 \<longrightarrow>
      parsePublicationDate parse pubDate
        = intToString (getFullYear date)
          @ [digitChar ((getMonth date + 1) div 10), digitChar (getMonth date + 1),
             digitChar (getDate date div 10), digitChar (getDate date)]
      \<and> (1000 \<le> getFullYear date \<longrightarrow> getFullYear date \<le> 9999 \<longrightarrow>
           length (parsePublicationDate parse pubDate) = 8))
   \<and> (parse pubDate = None \<longrightarrow> pubDate = p @ y @ r \<longrightarrow> yearToken p y r \<longrightarrow>
        (\<forall>p' y' r'. pubDate = p' @ y' @ r' \<longrightarrow> yearToken p' y' r' \<longrightarrow> length p \<le> length p') \<longrightarrow>
        parsePublicationDate parse pubDate = y @ ''_unknown'')
   \<and> (parse pubDate = None \<longrightarrow>
        (\<forall>p' y' r'. pubDate = p' @ y' @ r' \<longrightarrow> \<not> yearToken p' y' r') \<longrightarrow>
        parsePublicationDate parse pubDate = ''unknown_year_unknown'')
   \<and> (parse ''March 3, 2024'' = Some \<lparr>getFullYear = 2024, getMonth = 2, getDate = 3\<rparr> \<longrightarrow>
        parsePublicationDate parse ''March 3, 2024'' = ''20240303'')
   \<and> (parse ''Volume 12, 2023 (date unparseable)'' = None \<longrightarrow>
        parsePublicationDate parse ''Volume 12, 2023 (date unparseable)'' = ''2023_unknown'')"
proof -
  have a: "parse pubDate = Some date \<longrightarrow> getMonth date \<le> 11 \<longrightarrow> getDate date \<le> 31 \<longrightarrow>
      parsePublicationDate parse pubDate
        = intToString (getFullYear date)
          @ [digitChar ((getMonth date + 1) div 10), digitChar (getMonth date + 1),
             digitChar (getDate date div 10), digitChar (getDate date)]
      \<and> (1000 \<le> getFullYear date \<longrightarrow> getFullYear date \<le> 9999 \<longrightarrow>
           length (parsePublicationDate parse pubDate) = 8)"
  proof (intro impI)
    assume p: "parse pubDate = Some date" and m: "getMonth date \<le> 11" and d: "getDate date \<le> 31"
    from m have m': "getMonth date + 1 < 100" by simp
    from d have d': "getDate date < 100" by simp
    have r: "parsePublicationDate parse pubDate
        = intToString (getFullYear date)
          @ [digitChar ((getMonth date + 1) div 10), digitChar (getMonth date + 1),
             digitChar (getDate date div 10), digitChar (getDate date)]"
      by (simp only: parsePublicationDate_def p option.case Let_def
            padStart_two_digits [OF m'] padStart_two_digits [OF d'] append.simps)
    have "1000 \<le> getFullYear date \<longrightarrow> getFullYear date \<le> 9999 \<longrightarrow>
           length (parsePublicationDate parse pubDate) = 8"
    proof (intro impI)
      assume lo: "1000 \<le> getFullYear date" and hi: "getFullYear date \<le> 9999"
      then have "1000 \<le> nat (getFullYear date)" "nat (getFullYear date) \<le> 9999" by simp_all
      from natToString_length4 [OF this] lo show "length (parsePublicationDate parse pubDate) = 8"
        by (simp add: r intToString_def)
    qed
    with r show "parsePublicationDate parse pubDate
        = intToString (getFullYear date)
          @ [digitChar ((getMonth date + 1) div 10), digitChar (getMonth date + 1),
             digitChar (getDate date div 10), digitChar (getDate date)]
      \<and> (1000 \<le> getFullYear date \<longrightarrow> getFullYear date \<le> 9999 \<longrightarrow>
           length (parsePublicationDate parse pubDate) = 8)" by (rule conjI)
  qed
  have b: "parse pubDate = None \<longrightarrow> pubDate = p @ y @ r \<longrightarrow> yearToken p y r \<longrightarrow>
        (\<forall>p' y' r'. pubDate = p' @ y' @ r' \<longrightarrow> yearToken p' y' r' \<longrightarrow> length p \<le> length p') \<longrightarrow>
        parsePublicationDate parse pubDate = y @ ''_unknown''"
  proof (intro impI)
    assume n: "parse pubDate = None" and e: "pubDate = p @ y @ r" and t: "yearToken p y r"
      and f: "\<forall>p' y' r'. pubDate = p' @ y' @ r' \<longrightarrow> yearToken p' y' r' \<longrightarrow> length p \<le> length p'"
    from matchYear_first_token [OF e t f] n
    show "parsePublicationDate parse pubDate = y @ ''_unknown''"
      by (simp add: parsePublicationDate_def)
  qed
  have c: "parse pubDate = None \<longrightarrow>
        (\<forall>p' y' r'. pubDate = p' @ y' @ r' \<longrightarrow> \<not> yearToken p' y' r') \<longrightarrow>
        parsePublicationDate parse pubDate = ''unknown_year_unknown''"
  proof (intro impI)
    assume n: "parse pubDate = None"
      and f: "\<forall>p' y' r'. pubDate = p' @ y' @ r' \<longrightarrow> \<not> yearToken p' y' r'"
    from matchYear_no_token [OF f] n
    show "parsePublicationDate parse pubDate = ''unknown_year_unknown''"
      by (simp add: parsePublicationDate_def)
  qed
  have d: "parse ''March 3, 2024'' = Some \<lparr>getFullYear = 2024, getMonth = 2, getDate = 3\<rparr> \<longrightarrow>
        parsePublicationDate parse ''March 3, 2024'' = ''20240303''"
    by (simp add: parsePublicationDate_def padStart_def intToString_def natToString.simps
          digitChar_def)
  have e: "parse ''Volume 12, 2023 (date unparseable)'' = None \<longrightarrow>
        parsePublicationDate parse ''Volume 12, 2023 (date unparseable)'' = ''2023_unknown''"
    by (simp add: parsePublicationDate_def isWordChar_def isDigit_def)
  from a b c d e show ?thesis by (intro conjI)
qed

theorem parsePublicationDate_cases_witness:
  "parsePublicationDate
      [''March 3, 2024'' \<mapsto> \<lparr>getFullYear = 2024, getMonth = 2, getDate = 3\<rparr>]
      ''March 3, 2024'' = ''20240303''
   \<and> length (parsePublicationDate
      [''March 3, 2024'' \<mapsto> \<lparr>getFullYear = 2024, getMonth = 2, getDate = 3\<rparr>]
      ''March 3, 2024'') = 8
   \<and> parsePublicationDate Map.empty ''Volume 12, 2023 (date unparseable)'' = ''2023_unknown''
   \<and> parsePublicationDate Map.empty ''Cell, no date'' = ''unknown_year_unknown''"
proof -
  note t1 = parsePublicationDate_cases
    [where parse = "[''March 3, 2024'' \<mapsto> \<lparr>getFullYear = 2024, getMonth = 2, getDate = 3\<rparr>]"
       and pubDate = "''March 3, 2024''"
       and date = "\<lparr>getFullYear = 2024, getMonth = 2, getDate = 3\<rparr>", THEN conjunct1]
  have w1: "parsePublicationDate
      [''March 3, 2024'' \<mapsto> \<lparr>getFullYear = 2024, getMonth = 2, getDate = 3\<rparr>]
      ''March 3, 2024'' = ''20240303''
   \<and> length (parsePublicationDate
      [''March 3, 2024'' \<mapsto> \<lparr>getFullYear = 2024, getMonth = 2, getDate = 3\<rparr>]
      ''March 3, 2024'') = 8"
    using t1 by (simp add: intToString_def natToString.simps digitChar_def)
  have e2: "''Volume 12, 2023 (date unparseable)''
              = ''Volume 12, '' @ ''2023'' @ '' (date unparseable)''"
    by simp
  have k2: "yearToken ''Volume 12, '' ''2023'' '' (date unparseable)''"
    by (simp add: yearToken_def isDigit_def isWordChar_def)
  have f2: "\<forall>p' y' r'. ''Volume 12, 2023 (date unparseable)'' = p' @ y' @ r'
              \<longrightarrow> yearToken p' y' r' \<longrightarrow> length ''Volume 12, '' \<le> length p'"
    by (rule first_token_by_position) (rule all_below_by_list, code_simp)
  note t2 = parsePublicationDate_cases
    [where parse = Map.empty and pubDate = "''Volume 12, 2023 (date unparseable)''"
       and p = "''Volume 12, ''" and y = "''2023''" and r = "'' (date unparseable)''",
      THEN conjunct2, THEN conjunct1]
  have n2: "Map.empty ''Volume 12, 2023 (date unparseable)'' = (None :: jsdate option)"
    by simp
  from t2 n2 e2 k2 f2
  have "parsePublicationDate Map.empty ''Volume 12, 2023 (date unparseable)''
          = ''2023'' @ ''_unknown''"
    by blast
  then have w2: "parsePublicationDate Map.empty ''Volume 12, 2023 (date unparseable)''
              = ''2023_unknown''"
    by simp
  have f3: "\<forall>p' y' r'. ''Cell, no date'' = p' @ y' @ r' \<longrightarrow> \<not> yearToken p' y' r'"
    by (rule no_token_by_position) (rule all_below_by_list, code_simp)
  note t3 = parsePublicationDate_cases
    [where parse = Map.empty and pubDate = "''Cell, no date''",
      THEN conjunct2, THEN conjunct2, THEN conjunct1]
  have n3: "Map.empty ''Cell, no date'' = (None :: jsdate option)" by simp
  from t3 n3 f3
  have w3: "parsePublicationDate Map.empty ''Cell, no date'' = ''unknown_year_unknown''"
    by blast
  from w1 w2 w3 show ?thesis by simp
qed

text \<open>
  The claim as stated fails on a string that the engine does not parse and that holds
  no \<^verbatim>\<open>20xx\<close> token, such as the \<^verbatim>\<open>Unknown Date\<close> the extractors send when a page
  shows no date: the key is \<^verbatim>\<open>unknown_year_unknown\<close>, which carries no year.
\<close>

theorem parsePublicationDate_no_year_token:
  "parsePublicationDate Map.empty ''Unknown Date'' = ''unknown_year_unknown''
   \<and> matchYear False ''Unknown Date'' = None"
  by (simp add: parsePublicationDate_def isWordChar_def isDigit_def)

end
